theory Spec2Isabelle
  imports Main "HOL-Library.Char_ord" "HOL-Library.List_Lexorder" "HOL-Library.AList"
begin

section \<open>common-iface: the common interface of a list of Go types\<close>

text \<open>
  The program is one \<open>main\<close> function over the Go type checker (\<open>go/types\<close>), the
  package loader and the source formatter. The embedding follows \<open>main\<close> block by
  block. Library calls are fields of a record of functions (\<open>golib\<close>), so that every
  theorem holds for whatever the library computes; the logic of \<open>main\<close> itself (argument
  splitting, lookup, pointer wrapping, the per-type map, the intersection, sorting,
  rendering, the header) is written out.
\<close>

subsection \<open>Data\<close>

text \<open>\<open>type argType struct { pkg string; typ string }\<close>\<close>

record argType =
  pkg :: string
  "typ" :: string

text \<open>
  The implementations of \<open>types.Type\<close> that \<open>main\<close> tells apart: \<open>*types.Named\<close> (package
  path and name), \<open>*types.Pointer\<close>, and everything else.
\<close>

datatype gotype = Named string string | Pointer gotype | Other string

text \<open>
  A \<open>types.Object\<close>: its name, its type and its source position. \<open>obj_Kind\<close> is the
  implementation of the interface behind it, of those a package scope or a method set
  can hold: \<open>*types.TypeName\<close>, \<open>*types.Var\<close>, \<open>*types.Const\<close>, \<open>*types.Func\<close>. \<open>main\<close>
  never looks at it.
\<close>

datatype objkind = TypeName | Var | Const | Func

record object =
  obj_Name :: string
  obj_Type :: gotype
  obj_Pos :: int
  obj_Kind :: objkind

text \<open>A \<open>*types.Selection\<close> of a method set: \<open>Obj()\<close> and \<open>Type()\<close> (a signature).\<close>

record 'sig selection =
  sel_Obj :: object
  sel_Type :: 'sig

text \<open>\<open>type fn struct { Signature *types.Signature; Obj types.Object }\<close>\<close>

record 'sig fn =
  Signature :: 'sig
  Obj :: object

text \<open>
  The nodes of an AST path that the doc-comment loop looks at: a \<open>*ast.FuncDecl\<close> and a
  \<open>*ast.Field\<close> carry \<open>Doc\<close> (\<open>None\<close> is the nil comment group, otherwise the texts of
  \<open>doc.List\<close>); any other node is \<open>OtherNode\<close>.
\<close>

datatype node = FuncDecl "string list option" | Field "string list option" | OtherNode

text \<open>
  A loaded \<open>*loader.Program\<close>: \<open>Imported\<close> maps a package path to the scope of the
  package (name to object), \<open>PathEnclosingInterval\<close> maps a position to the path of
  enclosing nodes.
\<close>

record program =
  Imported :: "string \<rightharpoonup> (string \<rightharpoonup> object)"
  PathEnclosingInterval :: "int \<Rightarrow> node list"

text \<open>
  The library functions \<open>main\<close> calls. \<open>conf_Load\<close> takes the \<open>comments\<close> flag (it sets
  the parser mode) and the imported package paths, and returns the error or the program.
  \<open>Implements\<close> takes the element type and the methods handed to \<open>types.NewInterface\<close>.
  \<open>Interface_String funcs\<close> is \<open>types.TypeString(types.NewInterface(funcs, nil).Complete(),
  (*types.Package).Name)\<close>, which only the older version of the program calls.
\<close>

record 'sig golib =
  conf_Load :: "bool \<Rightarrow> string list \<Rightarrow> string + program"
  NewMethodSet :: "gotype \<Rightarrow> 'sig selection list"
  Identical :: "'sig \<Rightarrow> 'sig \<Rightarrow> bool"
  IsInterface :: "gotype \<Rightarrow> bool"
  IsExported :: "string \<Rightarrow> bool"
  Implements :: "gotype \<Rightarrow> (string \<times> 'sig) list \<Rightarrow> bool"
  TypeString :: "'sig \<Rightarrow> string"
  Type_String :: "gotype \<Rightarrow> string"
  format_Source :: "string \<Rightarrow> string option"
  Interface_String :: "(string \<times> 'sig) list \<Rightarrow> string"

text \<open>
  The ways \<open>main\<close> ends without printing an interface: \<open>flag.Usage(); os.Exit(1)\<close>, the
  four \<open>log.Fatalf\<close> calls, and a run-time panic (nil map entry, slice bound).
\<close>

datatype fatal =
    UsageExit
  | ExpectedPkgType string
  | LoadError string
  | LookupFailed string
  | NotDeclaredType object gotype
  | Panic

text \<open>The format string of the \<open>log.Fatalf\<close> call behind each fatal result.\<close>

fun fatal_format :: "fatal \<Rightarrow> string" where
  "fatal_format (ExpectedPkgType arg) = ''Expected [pkg].[type], not %q''"
| "fatal_format (LoadError err) = ''Error loading packages: %v''"
| "fatal_format (LookupFailed n) = ''Lookup of %q failed''"
| "fatal_format (NotDeclaredType ob t) = ''%q is not a declared type, it's a %q''"
| "fatal_format UsageExit = []"
| "fatal_format Panic = []"

subsection \<open>Splitting the arguments (lines 72-82)\<close>

text \<open>
  \<open>strings.LastIndexByte(s, c)\<close>: the scan from the last byte down to the first, \<open>-1\<close>
  when \<open>c\<close> does not occur.
\<close>

fun last_index_from :: "string \<Rightarrow> char \<Rightarrow> nat \<Rightarrow> int" where
  "last_index_from s c 0 = - 1"
| "last_index_from s c (Suc i) = (if s ! i = c then int i else last_index_from s c i)"

definition LastIndexByte :: "string \<Rightarrow> char \<Rightarrow> int" where
  "LastIndexByte s c = last_index_from s c (length s)"

text \<open>The body of the loop over \<open>flag.Args()\<close>, for one argument.\<close>

definition parse_arg :: "string \<Rightarrow> fatal + argType" where
  "parse_arg arg =
     (let idx = LastIndexByte arg (CHR ''.'') in
      if idx < 1 then Inl (ExpectedPkgType arg)
      else Inr \<lparr>pkg = take (nat idx) arg, typ = drop (nat (idx + 1)) arg\<rparr>)"

text \<open>The loop: the first bad argument ends the program.\<close>

fun parse_args :: "string list \<Rightarrow> fatal + argType list" where
  "parse_args [] = Inr []"
| "parse_args (arg # args) =
     (case parse_arg arg of
        Inl e \<Rightarrow> Inl e
      | Inr a \<Rightarrow> (case parse_args args of Inl e \<Rightarrow> Inl e | Inr as \<Rightarrow> Inr (a # as)))"

subsection \<open>Looking the types up (lines 84-103)\<close>

text \<open>
  The loop over \<open>argTypes\<close>. \<open>prog.Imported[argType.pkg]\<close> of a missing package is nil,
  and \<open>pkg.Pkg\<close> then panics. \<open>obj.Type().(*types.Named)\<close> succeeds on a \<open>Named\<close> type only.
\<close>

fun lookup_types :: "program \<Rightarrow> argType list \<Rightarrow> fatal + gotype list" where
  "lookup_types prog [] = Inr []"
| "lookup_types prog (a # as) =
     (case Imported prog (pkg a) of
        None \<Rightarrow> Inl Panic
      | Some scope \<Rightarrow>
          (case scope (typ a) of
             None \<Rightarrow> Inl (LookupFailed (pkg a @ ''.'' @ typ a))
           | Some ob \<Rightarrow>
               (case obj_Type ob of
                  Named p n \<Rightarrow>
                    (case lookup_types prog as of
                       Inl e \<Rightarrow> Inl e
                     | Inr typs \<Rightarrow> Inr (Named p n # typs))
                | Pointer t \<Rightarrow> Inl (NotDeclaredType ob (Pointer t))
                | Other s \<Rightarrow> Inl (NotDeclaredType ob (Other s)))))"

subsection \<open>The common methods (lines 106-137)\<close>

text \<open>\<open>_, isPtr := t.(*types.Pointer)\<close>\<close>

fun isPtr :: "gotype \<Rightarrow> bool" where
  "isPtr (Pointer t) = True"
| "isPtr (Named p n) = False"
| "isPtr (Other s) = False"

text \<open>Lines 109-112: wrap the type in a pointer unless it is a pointer or an interface.\<close>

definition wrap :: "'sig golib \<Rightarrow> gotype \<Rightarrow> gotype" where
  "wrap L t = (if \<not> isPtr t \<and> \<not> IsInterface L t then Pointer t else t)"

text \<open>
  A Go \<open>map[string]V\<close> is an association list with distinct keys: \<open>m[k] = v\<close> is
  \<open>AList.update\<close>, \<open>m[k]\<close> is \<open>map_of\<close>, \<open>delete\<close> drops the pair. The order of the list
  stands for the unspecified order of \<open>range\<close>.

  Lines 115-124: the map from name to method of one type. \<open>add_method\<close> is the loop body,
  the fold runs \<open>ms.At(0)\<close> to \<open>ms.At(n-1)\<close>.
\<close>

definition add_method ::
  "'sig golib \<Rightarrow> bool \<Rightarrow> (string \<times> 'sig fn) list \<Rightarrow> 'sig selection \<Rightarrow> (string \<times> 'sig fn) list"
where
  "add_method L private sigs method =
     (let ob = sel_Obj method; name = obj_Name ob in
      if private \<or> IsExported L name
      then AList.update name \<lparr>Signature = sel_Type method, Obj = ob\<rparr> sigs
      else sigs)"

definition sigs_of :: "'sig golib \<Rightarrow> bool \<Rightarrow> gotype \<Rightarrow> (string \<times> 'sig fn) list" where
  "sigs_of L private t = foldl (add_method L private) [] (NewMethodSet L t)"

text \<open>
  Lines 131-135: the test under which \<open>delete(common, k)\<close> runs, and the loop over
  \<open>common\<close>, which keeps the other entries as they are.
\<close>

definition deleted :: "'sig golib \<Rightarrow> (string \<times> 'sig fn) list \<Rightarrow> string \<times> 'sig fn \<Rightarrow> bool" where
  "deleted L sigs kv =
     (case map_of sigs (fst kv) of
        None \<Rightarrow> True
      | Some s \<Rightarrow> \<not> Identical L (Signature (snd kv)) (Signature s))"

definition remove_missing ::
  "'sig golib \<Rightarrow> (string \<times> 'sig fn) list \<Rightarrow> (string \<times> 'sig fn) list \<Rightarrow> (string \<times> 'sig fn) list"
where
  "remove_missing L sigs common = filter (\<lambda>kv. \<not> deleted L sigs kv) common"

text \<open>
  The loop over \<open>typs\<close>. The state is the list \<open>typs\<close> (entry \<open>ti\<close> is overwritten by the
  wrapped type) and \<open>common\<close>, where \<open>None\<close> is the nil map. \<open>done\<close> holds the entries
  before \<open>ti\<close>.
\<close>

fun common_loop ::
  "'sig golib \<Rightarrow> bool \<Rightarrow> gotype list \<Rightarrow> (string \<times> 'sig fn) list option \<Rightarrow> gotype list
     \<Rightarrow> gotype list \<times> (string \<times> 'sig fn) list option"
where
  "common_loop L private done common [] = (done, common)"
| "common_loop L private done common (t # ts) =
     (let t' = wrap L t;
          sigs = sigs_of L private t';
          common' = (case common of
                       None \<Rightarrow> Some sigs
                     | Some c \<Rightarrow> Some (remove_missing L sigs c))
      in common_loop L private (done @ [t']) common' ts)"

text \<open>After the loop a nil map reads as the empty map.\<close>

definition entries :: "(string \<times> 'v) list option \<Rightarrow> (string \<times> 'v) list" where
  "entries common = (case common of None \<Rightarrow> [] | Some c \<Rightarrow> c)"

subsection \<open>Rendering (lines 139-195)\<close>

text \<open>Lines 140-144: the keys of \<open>common\<close>, then \<open>sort.Strings\<close> (byte-wise order).\<close>

definition sorted_names :: "(string \<times> 'v) list option \<Rightarrow> string list" where
  "sorted_names common = sort (map fst (entries common))"

text \<open>
  Lines 161-175: the first node of the path with a non-nil \<open>Doc\<close> gives the comment
  lines, printed with \<open>Fprintln\<close>; then the loop breaks.
\<close>

fun node_doc :: "node \<Rightarrow> string list option" where
  "node_doc (FuncDecl d) = d"
| "node_doc (Field d) = d"
| "node_doc OtherNode = None"

fun doc_text :: "node list \<Rightarrow> string" where
  "doc_text [] = []"
| "doc_text (n # ns) =
     (case node_doc n of
        Some cs \<Rightarrow> concat (map (\<lambda>c. c @ [CHR 0x0A]) cs)
      | None \<Rightarrow> doc_text ns)"

text \<open>Lines 157-176. \<open>path[:len(path)-1]\<close> of an empty path panics.\<close>

definition doc_comment :: "program \<Rightarrow> bool \<Rightarrow> 'sig fn \<Rightarrow> fatal + string" where
  "doc_comment prog comments method =
     (if comments then
        (let path = PathEnclosingInterval prog (obj_Pos (Obj method)) in
         if path = [] then Inl Panic else Inr (doc_text (butlast path)))
      else Inr [])"

text \<open>\<open>strings.TrimPrefix\<close>\<close>

definition TrimPrefix :: "string \<Rightarrow> string \<Rightarrow> string" where
  "TrimPrefix s p = (if take (length p) s = p then drop (length p) s else s)"

text \<open>Lines 179-180: \<open>Fprintf(buf, "\t%s%s\n", name, TrimPrefix(sig, "func"))\<close>.\<close>

definition method_line :: "'sig golib \<Rightarrow> string \<Rightarrow> 'sig fn \<Rightarrow> string" where
  "method_line L name method =
     [CHR 0x09] @ name @ TrimPrefix (TypeString L (Signature method)) ''func'' @ [CHR 0x0A]"

text \<open>
  Lines 153-181, the loop over the sorted names. Every name is a key of \<open>common\<close>; for a
  missing key Go reads the zero \<open>fn\<close>, whose nil fields make the body panic.
\<close>

fun render_methods ::
  "'sig golib \<Rightarrow> program \<Rightarrow> bool \<Rightarrow> (string \<times> 'sig fn) list \<Rightarrow> string list \<Rightarrow> fatal + string"
where
  "render_methods L prog comments common [] = Inr []"
| "render_methods L prog comments common (name # names) =
     (case map_of common name of
        None \<Rightarrow> Inl Panic
      | Some method \<Rightarrow>
          (case doc_comment prog comments method of
             Inl e \<Rightarrow> Inl e
           | Inr doc \<Rightarrow>
               (case render_methods L prog comments common names of
                  Inl e \<Rightarrow> Inl e
                | Inr rest \<Rightarrow> Inr (doc @ method_line L name method @ rest))))"

text \<open>Lines 147-183: the whole buffer.\<close>

definition render_buf ::
  "'sig golib \<Rightarrow> program \<Rightarrow> bool \<Rightarrow> (string \<times> 'sig fn) list option \<Rightarrow> fatal + string"
where
  "render_buf L prog comments common =
     (case render_methods L prog comments (entries common) (sorted_names common) of
        Inl e \<Rightarrow> Inl e
      | Inr body \<Rightarrow>
          Inr (''package common;type T interface{'' @ [CHR 0x0A] @ body @ ''}'' @ [CHR 0x0A]))"

text \<open>\<open>bytes.Index\<close>: the first index at which \<open>sep\<close> starts, or \<open>-1\<close>.\<close>

fun bytes_Index :: "string \<Rightarrow> string \<Rightarrow> int" where
  "bytes_Index [] sep = (if sep = [] then 0 else - 1)"
| "bytes_Index (c # s) sep =
     (if take (length sep) (c # s) = sep then 0
      else (let i = bytes_Index s sep in if i < 0 then - 1 else i + 1))"

text \<open>Lines 186-195: format unless that fails, then cut everything before \<open>interface\<close>.\<close>

definition pretty :: "'sig golib \<Rightarrow> string \<Rightarrow> string" where
  "pretty L src =
     (let src1 = (case format_Source L src of Some src2 \<Rightarrow> src2 | None \<Rightarrow> src);
          idx = bytes_Index src1 ''interface''
      in if idx \<ge> 0 then drop (nat idx) src1 else src1)"

subsection \<open>The header (lines 197-218)\<close>

text \<open>Lines 203-205: the methods handed to \<open>types.NewInterface\<close>.\<close>

definition iface_funcs :: "(string \<times> 'sig fn) list option \<Rightarrow> (string \<times> 'sig) list" where
  "iface_funcs common = map (\<lambda>kv. (fst kv, Signature (snd kv))) (entries common)"

text \<open>Lines 212-214: the type printed for one entry of \<open>typs\<close>.\<close>

fun header_type :: "'sig golib \<Rightarrow> (string \<times> 'sig) list \<Rightarrow> gotype \<Rightarrow> gotype" where
  "header_type L iface (Pointer elem) = (if Implements L elem iface then elem else Pointer elem)"
| "header_type L iface (Named p n) = Named p n"
| "header_type L iface (Other s) = Other s"

definition header_line :: "'sig golib \<Rightarrow> (string \<times> 'sig) list \<Rightarrow> gotype \<Rightarrow> string" where
  "header_line L iface t = ''// '' @ Type_String L (header_type L iface t) @ [CHR 0x0A]"

definition header_text ::
  "'sig golib \<Rightarrow> bool \<Rightarrow> (string \<times> 'sig fn) list option \<Rightarrow> gotype list \<Rightarrow> string"
where
  "header_text L header common typs =
     (if header then
        ''// Common interface of'' @ [CHR 0x0A]
          @ concat (map (header_line L (iface_funcs common)) typs)
      else [])"

subsection \<open>The program\<close>

text \<open>
  \<open>main\<close> with the three flags and \<open>flag.Args()\<close>. The result is the fatal exit or the
  text written to standard output. Nothing is printed before line 209, and no exit
  happens after it.
\<close>

definition main ::
  "'sig golib \<Rightarrow> bool \<Rightarrow> bool \<Rightarrow> bool \<Rightarrow> string list \<Rightarrow> fatal + string"
where
  "main L comments header private args =
     (if args = [] then Inl UsageExit
      else case parse_args args of
        Inl e \<Rightarrow> Inl e
      | Inr argTypes \<Rightarrow>
          (case conf_Load L comments (map pkg argTypes) of
             Inl err \<Rightarrow> Inl (LoadError err)
           | Inr prog \<Rightarrow>
               (case lookup_types prog argTypes of
                  Inl e \<Rightarrow> Inl e
                | Inr typs \<Rightarrow>
                    (let r = common_loop L private [] None typs;
                         typs' = fst r; common = snd r
                     in case render_buf L prog comments common of
                          Inl e \<Rightarrow> Inl e
                        | Inr src \<Rightarrow>
                            Inr (header_text L header common typs' @ pretty L src)))))"

subsection \<open>The older version of the program\<close>









subsection \<open>A small universe for concrete runs\<close>

text \<open>
  A package \<open>ex\<close> with four struct types and two interfaces, used to run the definitions
  on concrete arguments. A signature is a pair: the signature with the parameter names
  erased, which is what \<open>types.Identical\<close> compares, and the text \<open>types.TypeString\<close>
  prints.

  \<open>A\<close> has \<open>Read\<close> on the value receiver and \<open>Close\<close>, \<open>Size\<close>, \<open>reset\<close> on the pointer
  receiver; \<open>B\<close> has \<open>Close\<close>, \<open>Read\<close>, \<open>Size\<close> (another result type) and \<open>reset\<close> on the
  pointer receiver; \<open>C\<close> has \<open>Close\<close> and \<open>Read\<close> on the value receiver; \<open>D\<close> has no
  methods; \<open>I\<close> is an interface with \<open>Close\<close> and \<open>Read\<close>, \<open>J\<close> is the interface
  without methods; the pointer to \<open>A\<close>, \<open>B\<close> or \<open>C\<close> has the methods of both receivers,
  the pointer to an interface or to a pointer has none; \<open>V\<close> is a variable of type
  \<open>int\<close> and \<open>E\<close> a variable of type \<open>A\<close>.
\<close>

definition ex_method :: "string \<Rightarrow> int \<Rightarrow> string \<Rightarrow> string \<Rightarrow> (string \<times> string) selection" where
  "ex_method name pos erased text =
     \<lparr>sel_Obj = \<lparr>obj_Name = name, obj_Type = Other text, obj_Pos = pos, obj_Kind = Func\<rparr>,
      sel_Type = (erased, text)\<rparr>"

definition ex_typename :: "string \<Rightarrow> int \<Rightarrow> object" where
  "ex_typename n pos = \<lparr>obj_Name = n, obj_Type = Named ''ex'' n, obj_Pos = pos, obj_Kind = TypeName\<rparr>"

definition ex_scope :: "string \<rightharpoonup> object" where
  "ex_scope =
     [''A'' \<mapsto> ex_typename ''A'' 1, ''B'' \<mapsto> ex_typename ''B'' 2, ''C'' \<mapsto> ex_typename ''C'' 3,
      ''I'' \<mapsto> ex_typename ''I'' 4, ''D'' \<mapsto> ex_typename ''D'' 7, ''J'' \<mapsto> ex_typename ''J'' 8,
      ''V'' \<mapsto> \<lparr>obj_Name = ''V'', obj_Type = Other ''int'', obj_Pos = 5, obj_Kind = Var\<rparr>,
      ''E'' \<mapsto> \<lparr>obj_Name = ''E'', obj_Type = Named ''ex'' ''A'', obj_Pos = 6, obj_Kind = Var\<rparr>]"

definition ex_path :: "int \<Rightarrow> node list" where
  "ex_path pos =
     (if pos = 10 then [OtherNode, FuncDecl (Some [''// Close closes A.'']), OtherNode]
      else if pos = 11 then [OtherNode, FuncDecl None, OtherNode]
      else if pos = 20 then [OtherNode, FuncDecl (Some [''// Close closes B.'']), OtherNode]
      else if pos = 40 then [OtherNode, Field (Some [''// Close ends it.'']), OtherNode, OtherNode]
      else if pos = 0 then []
      else [OtherNode])"

definition ex_prog :: program where
  "ex_prog = \<lparr>Imported = [''ex'' \<mapsto> ex_scope], PathEnclosingInterval = ex_path\<rparr>"

fun ex_methods :: "gotype \<Rightarrow> (string \<times> string) selection list" where
  "ex_methods (Pointer (Named p n)) =
     (if n = ''A'' then
        [ex_method ''Close'' 10 ''func() error'' ''func() error'',
         ex_method ''Read'' 11 ''func([]byte) (int, error)'' ''func(b []byte) (n int, err error)'',
         ex_method ''Size'' 12 ''func() int'' ''func() int'',
         ex_method ''reset'' 13 ''func()'' ''func()'']
      else if n = ''B'' then
        [ex_method ''Size'' 22 ''func() int64'' ''func() int64'',
         ex_method ''Read'' 21 ''func([]byte) (int, error)'' ''func(p []byte) (int, error)'',
         ex_method ''Close'' 20 ''func() error'' ''func() (err error)'',
         ex_method ''reset'' 23 ''func()'' ''func()'']
      else if n = ''C'' then
        [ex_method ''Close'' 30 ''func() error'' ''func() error'',
         ex_method ''Read'' 31 ''func([]byte) (int, error)'' ''func(q []byte) (int, error)'']
      else [])"
| "ex_methods (Named p n) =
     (if n = ''A'' then
        [ex_method ''Read'' 11 ''func([]byte) (int, error)'' ''func(b []byte) (n int, err error)'']
      else if n = ''C'' then
        [ex_method ''Close'' 30 ''func() error'' ''func() error'',
         ex_method ''Read'' 31 ''func([]byte) (int, error)'' ''func(q []byte) (int, error)'']
      else if n = ''I'' then
        [ex_method ''Close'' 40 ''func() error'' ''func() error'',
         ex_method ''Read'' 41 ''func([]byte) (int, error)'' ''func(p []byte) (n int, err error)'']
      else [])"
| "ex_methods t = []"

fun ex_String :: "gotype \<Rightarrow> string" where
  "ex_String (Named p n) = p @ ''.'' @ n"
| "ex_String (Pointer t) = ''*'' @ ex_String t"
| "ex_String (Other s) = s"

definition ex_Implements :: "gotype \<Rightarrow> (string \<times> string \<times> string) list \<Rightarrow> bool" where
  "ex_Implements t iface =
     list_all (\<lambda>f. list_ex (\<lambda>m. obj_Name (sel_Obj m) = fst f \<and> fst (sel_Type m) = fst (snd f))
                      (ex_methods t)) iface"

text \<open>
  The example \<open>Interface_String\<close> writes an interface as \<open>go/types\<close> does: the methods
  in the order of their names, each as the name and the signature without \<open>func\<close>,
  joined by \<open>; \<close> between \<open>interface{\<close> and \<open>}\<close>.

  The example formatter stands for \<open>go/format\<close> on the two layouts the programs hand
  to it. The package clause and the type declaration go on lines of their own. An
  interface written on one line stays \<open>interface{}\<close> when it has no methods, and is
  broken into one method per line otherwise (the one-line form that \<open>go/format\<close>
  keeps for a single short method is not modelled). An interface written over several
  lines keeps its lines, each indented by one tab. Any other text is not Go
  source and gives an error.
\<close>

fun split_semis :: "string \<Rightarrow> string list" where
  "split_semis [] = [[]]"
| "split_semis (c # s) =
     (if c = CHR '';'' \<and> take 1 s = '' '' then [] # split_semis (drop 1 s)
      else (case split_semis s of w # ws \<Rightarrow> (c # w) # ws | [] \<Rightarrow> [[c]]))"

fun join_semis :: "string list \<Rightarrow> string" where
  "join_semis [] = []"
| "join_semis [m] = m"
| "join_semis (m # ms) = m @ ''; '' @ join_semis ms"

fun indent_lines :: "bool \<Rightarrow> string \<Rightarrow> string" where
  "indent_lines start [] = []"
| "indent_lines start (c # s) =
     (if start \<and> c \<noteq> CHR 0x09 \<and> c \<noteq> CHR ''}'' \<and> c \<noteq> CHR 0x0A then [CHR 0x09] else [])
       @ c # indent_lines (c = CHR 0x0A) s"

definition ex_format :: "string \<Rightarrow> string option" where
  "ex_format src =
     (let h = ''package common;type T interface{'';
          H = ''package common'' @ [CHR 0x0A, CHR 0x0A] @ ''type T interface'';
          rest = drop (length h) src
      in if take (length h) src \<noteq> h then None
         else if rest = ''}'' then Some (H @ ''{}'' @ [CHR 0x0A])
         else if CHR 0x0A \<notin> set rest \<and> rest \<noteq> [] \<and> last rest = CHR ''}'' then
           Some (H @ '' {'' @ [CHR 0x0A]
                   @ concat (map (\<lambda>m. [CHR 0x09] @ m @ [CHR 0x0A]) (split_semis (butlast rest)))
                   @ ''}'' @ [CHR 0x0A])
         else if take 1 rest = [CHR 0x0A] then
           Some (H @ '' {'' @ [CHR 0x0A] @ indent_lines True (drop 1 rest))
         else None)"

definition ex_Interface_String :: "(string \<times> string \<times> string) list \<Rightarrow> string" where
  "ex_Interface_String funcs =
     ''interface{''
       @ join_semis (map (\<lambda>f. fst f @ TrimPrefix (snd (snd f)) ''func'') (sort_key fst funcs))
       @ ''}''"

text \<open>
  The example library. Its loader knows the package \<open>ex\<close> only; a name is exported
  when it starts with an ASCII capital.
\<close>

definition ex_lib :: "(string \<times> string) golib" where
  "ex_lib =
     \<lparr>conf_Load = (\<lambda>comments pkgs.
         if list_all (\<lambda>p. p = ''ex'') pkgs then Inr ex_prog else Inl ''cannot find package''),
      NewMethodSet = ex_methods,
      Identical = (\<lambda>s t. fst s = fst t),
      IsInterface = (\<lambda>t. case t of Named p n \<Rightarrow> n = ''I'' \<or> n = ''J'' | _ \<Rightarrow> False),
      IsExported = (\<lambda>name. case name of [] \<Rightarrow> False | c # cs \<Rightarrow> CHR ''A'' \<le> c \<and> c \<le> CHR ''Z''),
      Implements = ex_Implements,
      TypeString = snd,
      Type_String = ex_String,
      format_Source = ex_format,
      Interface_String = ex_Interface_String\<rparr>"

section \<open>Properties\<close>

subsection \<open>Splitting the arguments\<close>

lemma last_index_from_neg:
  "last_index_from s c n < 0 \<longleftrightarrow> (\<forall>i<n. s ! i \<noteq> c)"
  by (induction n) (auto simp: less_Suc_eq)

lemma last_index_from_ge: "- 1 \<le> last_index_from s c n"
  by (induction n) auto

lemma last_index_from_found:
  "last_index_from s c n = int i \<Longrightarrow> i < n \<and> s ! i = c \<and> (\<forall>j. i < j \<and> j < n \<longrightarrow> s ! j \<noteq> c)"
proof (induction n)
  case 0
  then show ?case by simp
next
  case (Suc n)
  show ?case
  proof (cases "s ! n = c")
    case True
    with Suc.prems have "i = n" by simp
    with True show ?thesis by auto
  next
    case False
    with Suc.prems have "last_index_from s c n = int i" by simp
    from Suc.IH [OF this] False show ?thesis
      by (auto simp: less_Suc_eq)
  qed
qed

lemma LastIndexByte_none: "LastIndexByte s c < 0 \<longleftrightarrow> c \<notin> set s"
  unfolding LastIndexByte_def last_index_from_neg
  by (auto simp: in_set_conv_nth)

lemma LastIndexByte_split:
  assumes "LastIndexByte s c = int i"
  shows "s = take i s @ c # drop (Suc i) s \<and> c \<notin> set (drop (Suc i) s)"
proof -
  from assms have f: "i < length s" "s ! i = c" "\<forall>j. i < j \<and> j < length s \<longrightarrow> s ! j \<noteq> c"
    using last_index_from_found [of s c "length s" i] by (auto simp: LastIndexByte_def)
  from f(1,2) have "s = take i s @ c # drop (Suc i) s"
    by (metis id_take_nth_drop)
  moreover have "c \<notin> set (drop (Suc i) s)"
  proof
    assume "c \<in> set (drop (Suc i) s)"
    then obtain k where "k < length (drop (Suc i) s)" "drop (Suc i) s ! k = c"
      by (auto simp: in_set_conv_nth)
    then have "Suc i + k < length s" "s ! (Suc i + k) = c" by auto
    with f(3) show False by (metis add_Suc less_add_Suc1)
  qed
  ultimately show ?thesis by blast
qed

lemma parse_arg_Inr:
  assumes "parse_arg arg = Inr a"
  shows "arg = pkg a @ ''.'' @ typ a \<and> CHR ''.'' \<notin> set (typ a) \<and> pkg a \<noteq> []"
proof -
  define idx where "idx = LastIndexByte arg (CHR ''.'')"
  from assms have ge: "1 \<le> idx" and a: "a = \<lparr>pkg = take (nat idx) arg, typ = drop (nat (idx + 1)) arg\<rparr>"
    by (auto simp: parse_arg_def Let_def idx_def split: if_splits)
  from ge have "LastIndexByte arg (CHR ''.'') = int (nat idx)" by (simp add: idx_def)
  from LastIndexByte_split [OF this] have
    s: "arg = take (nat idx) arg @ CHR ''.'' # drop (Suc (nat idx)) arg"
       "CHR ''.'' \<notin> set (drop (Suc (nat idx)) arg)" by auto
  have n: "nat (idx + 1) = Suc (nat idx)" using ge by simp
  have lt: "nat idx < length arg"
    using last_index_from_found [of arg "CHR ''.''" "length arg" "nat idx"] ge
    by (simp add: LastIndexByte_def idx_def)
  have "take (nat idx) arg \<noteq> []" using lt ge by auto
  with s a n show ?thesis by simp
qed


lemma LastIndexByte_ge: "- 1 \<le> LastIndexByte s c"
  by (simp add: LastIndexByte_def last_index_from_ge)

lemma LastIndexByte_zero:
  "LastIndexByte s c = 0 \<longleftrightarrow> (\<exists>rest. s = c # rest \<and> c \<notin> set rest)"
proof
  assume "LastIndexByte s c = 0"
  then have "LastIndexByte s c = int 0" by simp
  from LastIndexByte_split [OF this] show "\<exists>rest. s = c # rest \<and> c \<notin> set rest"
    by (metis append_Nil take0)
next
  assume "\<exists>rest. s = c # rest \<and> c \<notin> set rest"
  then obtain rest where s: "s = c # rest" and r: "c \<notin> set rest" by blast
  have "\<not> LastIndexByte s c < 0" using s by (simp add: LastIndexByte_none)
  then obtain i where i: "LastIndexByte s c = int i"
    by (metis not_less nonneg_int_cases)
  from LastIndexByte_split [OF i] have "c \<notin> set (drop (Suc i) s)" "i < length s \<or> True"
    by auto
  have "i = 0"
  proof (rule ccontr)
    assume "i \<noteq> 0"
    then obtain j where j: "i = Suc j" by (cases i) auto
    from i have "Suc j < length s \<and> s ! Suc j = c"
      using last_index_from_found [of s c "length s" i] by (simp add: LastIndexByte_def j)
    with s r show False by (auto simp: in_set_conv_nth)
  qed
  with i show "LastIndexByte s c = 0" by simp
qed

lemma parse_arg_Inl:
  "(\<exists>e. parse_arg arg = Inl e) \<longleftrightarrow>
     (CHR ''.'' \<notin> set arg \<or> (\<exists>rest. arg = CHR ''.'' # rest \<and> CHR ''.'' \<notin> set rest))"
proof -
  let ?i = "LastIndexByte arg (CHR ''.'')"
  have "(\<exists>e. parse_arg arg = Inl e) \<longleftrightarrow> ?i < 1"
    by (simp add: parse_arg_def Let_def)
  also have "\<dots> \<longleftrightarrow> ?i < 0 \<or> ?i = 0" by auto
  finally show ?thesis by (simp only: LastIndexByte_none LastIndexByte_zero)
qed

lemma parse_arg_error: "parse_arg arg = Inl e \<Longrightarrow> e = ExpectedPkgType arg"
  by (auto simp: parse_arg_def Let_def split: if_splits)

lemma parse_args_first_bad:
  assumes "\<forall>y\<in>set pre. \<exists>a. parse_arg y = Inr a" and "parse_arg x = Inl e"
  shows "parse_args (pre @ x # post) = Inl e"
  using assms by (induction pre) auto

lemma main_parse_error:
  "args \<noteq> [] \<Longrightarrow> parse_args args = Inl e \<Longrightarrow> main L comments header private args = Inl e"
  by (simp add: main_def)

text \<open>
  C5. Every argument is split at its last \<open>.\<close>: when \<open>parse_arg\<close> gives a pair, the
  argument is the package, a dot and the type name, the type name has no dot and the
  package is not empty. An argument without a dot, or whose only dot is its first byte,
  gives no pair: \<open>parse_arg\<close> ends with the \<open>Expected [pkg].[type]\<close> message, and so does
  \<open>main\<close> when the arguments before it were split. Every other argument gives a pair.
\<close>

theorem args_split_at_last_dot:
  "(\<forall>a. parse_arg arg = Inr a \<longrightarrow>
      arg = pkg a @ ''.'' @ typ a \<and> CHR ''.'' \<notin> set (typ a) \<and> pkg a \<noteq> [])
   \<and> ((CHR ''.'' \<notin> set arg \<or> (\<exists>rest. arg = CHR ''.'' # rest \<and> CHR ''.'' \<notin> set rest))
        \<longrightarrow> parse_arg arg = Inl (ExpectedPkgType arg)
          \<and> take 21 (fatal_format (ExpectedPkgType arg)) = ''Expected [pkg].[type]''
          \<and> (\<forall>pre post. (\<forall>y\<in>set pre. \<exists>a. parse_arg y = Inr a)
                \<longrightarrow> main L comments header private (pre @ arg # post) = Inl (ExpectedPkgType arg)))
   \<and> (\<not> (CHR ''.'' \<notin> set arg \<or> (\<exists>rest. arg = CHR ''.'' # rest \<and> CHR ''.'' \<notin> set rest))
        \<longrightarrow> (\<exists>a. parse_arg arg = Inr a))"
proof (intro conjI allI impI)
  fix a assume "parse_arg arg = Inr a"
  from parse_arg_Inr [OF this]
  show "arg = pkg a @ ''.'' @ typ a" "CHR ''.'' \<notin> set (typ a)" "pkg a \<noteq> []" by auto
next
  assume bad: "CHR ''.'' \<notin> set arg \<or> (\<exists>rest. arg = CHR ''.'' # rest \<and> CHR ''.'' \<notin> set rest)"
  then obtain e where "parse_arg arg = Inl e" using parse_arg_Inl [of arg] by blast
  then show e: "parse_arg arg = Inl (ExpectedPkgType arg)" using parse_arg_error by blast
  show "take 21 (fatal_format (ExpectedPkgType arg)) = ''Expected [pkg].[type]''" by simp
  fix pre post assume "\<forall>y\<in>set pre. \<exists>a. parse_arg y = Inr a"
  from parse_args_first_bad [OF this e]
  show "main L comments header private (pre @ arg # post) = Inl (ExpectedPkgType arg)"
    by (intro main_parse_error) auto
next
  assume "\<not> (CHR ''.'' \<notin> set arg \<or> (\<exists>rest. arg = CHR ''.'' # rest \<and> CHR ''.'' \<notin> set rest))"
  then have "\<not> (\<exists>e. parse_arg arg = Inl e)" using parse_arg_Inl [of arg] by blast
  then show "\<exists>a. parse_arg arg = Inr a" by (cases "parse_arg arg") auto
qed

theorem args_split_at_last_dot_witness:
  "parse_arg ''ex.A'' = Inr \<lparr>pkg = ''ex'', typ = ''A''\<rparr>
   \<and> ''ex.A'' = ''ex'' @ ''.'' @ ''A''
   \<and> parse_arg ''A'' = Inl (ExpectedPkgType ''A'')
   \<and> main ex_lib False False False [''ex.A'', ''A''] = Inl (ExpectedPkgType ''A'')"
proof -
  have p: "parse_arg ''ex.A'' = Inr \<lparr>pkg = ''ex'', typ = ''A''\<rparr>"
    by (simp add: parse_arg_def LastIndexByte_def)
  have bad: "CHR ''.'' \<notin> set ''A'' \<or> (\<exists>rest. ''A'' = CHR ''.'' # rest \<and> CHR ''.'' \<notin> set rest)"
    by simp
  have pre: "\<forall>y\<in>set [''ex.A'']. \<exists>a. parse_arg y = Inr a" using p by simp
  note t = args_split_at_last_dot [of "''A''" ex_lib False False False]
  note t2 = t [THEN conjunct2, THEN conjunct1, THEN mp, OF bad]
  have a: "parse_arg ''A'' = Inl (ExpectedPkgType ''A'')" by (rule t2 [THEN conjunct1])
  have "main ex_lib False False False ([''ex.A''] @ ''A'' # []) = Inl (ExpectedPkgType ''A'')"
    by (rule t2 [THEN conjunct2, THEN conjunct2, THEN spec, THEN spec, THEN mp, OF pre])
  then have m: "main ex_lib False False False [''ex.A'', ''A''] = Inl (ExpectedPkgType ''A'')"
    by simp
  have s: "''ex.A'' = ''ex'' @ ''.'' @ ''A''"
    using args_split_at_last_dot [of "''ex.A''" ex_lib False False False,
        THEN conjunct1, THEN spec, THEN mp, OF p] by simp
  from p s a m show ?thesis by (intro conjI)
qed

subsection \<open>The per-type map\<close>

lemma add_method_distinct:
  "distinct (map fst sigs) \<Longrightarrow> distinct (map fst (add_method L private sigs m))"
  by (simp add: add_method_def Let_def distinct_update)

lemma add_method_keys:
  "fst ` set (add_method L private sigs m) =
     (if private \<or> IsExported L (obj_Name (sel_Obj m))
      then insert (obj_Name (sel_Obj m)) (fst ` set sigs) else fst ` set sigs)"
  by (simp add: add_method_def Let_def dom_update)

lemma add_method_map_of:
  "map_of (add_method L private sigs m) =
     (if private \<or> IsExported L (obj_Name (sel_Obj m))
      then (map_of sigs)(obj_Name (sel_Obj m) \<mapsto> \<lparr>Signature = sel_Type m, Obj = sel_Obj m\<rparr>)
      else map_of sigs)"
  by (simp add: add_method_def Let_def update_conv')

lemma foldl_add_method_distinct:
  "distinct (map fst sigs) \<Longrightarrow> distinct (map fst (foldl (add_method L private) sigs ms))"
  by (induction ms arbitrary: sigs) (simp_all add: add_method_distinct)

lemma foldl_add_method_keys:
  "fst ` set (foldl (add_method L private) sigs ms) =
     fst ` set sigs \<union>
       {obj_Name (sel_Obj m) | m. m \<in> set ms \<and> (private \<or> IsExported L (obj_Name (sel_Obj m)))}"
proof (induction ms arbitrary: sigs)
  case Nil
  show ?case by simp
next
  case (Cons m ms)
  show ?case by (simp add: Cons.IH add_method_keys) blast
qed

lemma foldl_add_method_from:
  assumes "map_of (foldl (add_method L private) sigs ms) k = Some f"
  shows "map_of sigs k = Some f \<or>
         (\<exists>m\<in>set ms. obj_Name (sel_Obj m) = k \<and> (private \<or> IsExported L k)
            \<and> f = \<lparr>Signature = sel_Type m, Obj = sel_Obj m\<rparr>)"
  using assms
proof (induction ms arbitrary: sigs)
  case Nil
  then show ?case by simp
next
  case (Cons m ms)
  from Cons.IH [OF Cons.prems [simplified]]
  show ?case by (auto simp: add_method_map_of split: if_splits)
qed

lemma foldl_add_method_other:
  "\<forall>y\<in>set ms. obj_Name (sel_Obj y) \<noteq> k \<Longrightarrow>
     map_of (foldl (add_method L private) acc ms) k = map_of acc k"
  by (induction ms arbitrary: acc) (auto simp: add_method_map_of)

lemma foldl_add_method_last:
  assumes "distinct (map (\<lambda>m. obj_Name (sel_Obj m)) ms)" and "m \<in> set ms"
    and "private \<or> IsExported L (obj_Name (sel_Obj m))"
  shows "map_of (foldl (add_method L private) sigs ms) (obj_Name (sel_Obj m))
           = Some \<lparr>Signature = sel_Type m, Obj = sel_Obj m\<rparr>"
  using assms
proof (induction ms arbitrary: sigs)
  case Nil
  then show ?case by simp
next
  case (Cons x ms)
  show ?case
  proof (cases "m \<in> set ms")
    case True
    with Cons show ?thesis by simp
  next
    case False
    with Cons.prems have mx: "m = x" by simp
    let ?k = "obj_Name (sel_Obj m)"
    have start: "map_of (add_method L private sigs x) ?k
                   = Some \<lparr>Signature = sel_Type m, Obj = sel_Obj m\<rparr>"
      using Cons.prems(3) mx by (simp add: add_method_map_of)
    have "?k \<notin> (\<lambda>m. obj_Name (sel_Obj m)) ` set ms" using Cons.prems(1) mx by simp
    then have nok: "\<forall>y\<in>set ms. obj_Name (sel_Obj y) \<noteq> ?k" by (metis imageI)
    show ?thesis using foldl_add_method_other [OF nok] start by simp
  qed
qed

lemma sigs_of_distinct: "distinct (map fst (sigs_of L private t))"
  by (simp add: sigs_of_def foldl_add_method_distinct)

lemma sigs_of_keys:
  "fst ` set (sigs_of L private t) =
     {obj_Name (sel_Obj m) | m. m \<in> set (NewMethodSet L t)
        \<and> (private \<or> IsExported L (obj_Name (sel_Obj m)))}"
  by (simp add: sigs_of_def foldl_add_method_keys)

lemma sigs_of_from:
  "map_of (sigs_of L private t) k = Some f \<Longrightarrow>
     \<exists>m\<in>set (NewMethodSet L t). obj_Name (sel_Obj m) = k \<and> (private \<or> IsExported L k)
        \<and> f = \<lparr>Signature = sel_Type m, Obj = sel_Obj m\<rparr>"
  using foldl_add_method_from [of L "private" "[]" "NewMethodSet L t" k f]
  by (simp add: sigs_of_def)

subsection \<open>Deleting from the common map\<close>

lemma remove_missing_subset: "set (remove_missing L sigs c) \<subseteq> set c"
  by (auto simp: remove_missing_def)

lemma remove_missing_distinct:
  "distinct (map fst c) \<Longrightarrow> distinct (map fst (remove_missing L sigs c))"
  by (simp add: remove_missing_def distinct_map_filter)

lemma map_of_filter_distinct:
  "distinct (map fst c) \<Longrightarrow>
     map_of (filter P c) k = (case map_of c k of None \<Rightarrow> None
                              | Some v \<Rightarrow> if P (k, v) then Some v else None)"
proof (induction c)
  case Nil
  show ?case by simp
next
  case (Cons x c)
  obtain a b where x: "x = (a, b)" by (cases x)
  from Cons.prems x have nin: "a \<notin> fst ` set c" and d: "distinct (map fst c)" by auto
  from nin have none: "map_of c a = None" by (simp add: map_of_eq_None_iff)
  show ?case
  proof (cases "k = a")
    case True
    have "map_of (filter P c) a = None"
      using nin by (auto simp: map_of_eq_None_iff)
    with True x none show ?thesis by simp
  next
    case False
    with x Cons.IH [OF d] show ?thesis by simp
  qed
qed

lemma remove_missing_map_of:
  "distinct (map fst c) \<Longrightarrow>
     map_of (remove_missing L sigs c) k =
       (case map_of c k of None \<Rightarrow> None
        | Some v \<Rightarrow> (case map_of sigs k of None \<Rightarrow> None
                     | Some s \<Rightarrow> if Identical L (Signature v) (Signature s) then Some v else None))"
  by (simp add: remove_missing_def map_of_filter_distinct deleted_def
           split: option.splits)


lemma remove_missing_iff:
  "kv \<in> set (remove_missing L sigs c) \<longleftrightarrow>
     kv \<in> set c \<and> (\<exists>s. map_of sigs (fst kv) = Some s \<and> Identical L (Signature (snd kv)) (Signature s))"
  by (auto simp: remove_missing_def deleted_def split: option.splits)

subsection \<open>The loop over the types\<close>

lemma common_loop_fst: "fst (common_loop L private ds common ts) = ds @ map (wrap L) ts"
  by (induction ts arbitrary: ds common) (simp_all add: Let_def)

lemma common_loop_snd_done:
  "snd (common_loop L private ds common ts) = snd (common_loop L private ds' common ts)"
proof (induction ts arbitrary: ds ds' common)
  case Nil
  show ?case by simp
next
  case (Cons t ts)
  show ?case by (simp add: Let_def Cons.IH [of "ds @ [wrap L t]" _ "ds' @ [wrap L t]"])
qed

lemma common_loop_append:
  "snd (common_loop L private ds common (ts @ us)) =
     snd (common_loop L private [] (snd (common_loop L private ds common ts)) us)"
proof (induction ts arbitrary: ds common)
  case Nil
  show ?case using common_loop_snd_done [of L "private" ds common us "[]"] by simp
next
  case (Cons t ts)
  show ?case by (simp add: Let_def Cons.IH)
qed

lemma common_loop_Some:
  "snd (common_loop L private ds (Some c) ts) =
     Some (filter (\<lambda>kv. \<forall>t\<in>set ts. \<not> deleted L (sigs_of L private (wrap L t)) kv) c)"
proof (induction ts arbitrary: ds c)
  case Nil
  show ?case by simp
next
  case (Cons t ts)
  show ?case
    by (simp add: Let_def Cons.IH remove_missing_def conj_commute)
qed

lemma common_loop_None:
  "snd (common_loop L private ds None (t # ts)) =
     Some (filter (\<lambda>kv. \<forall>u\<in>set ts. \<not> deleted L (sigs_of L private (wrap L u)) kv)
             (sigs_of L private (wrap L t)))"
  by (simp add: Let_def common_loop_Some)

lemma common_loop_subset_first:
  "set (entries (snd (common_loop L private ds None (t # ts)))) \<subseteq> set (sigs_of L private (wrap L t))"
  by (auto simp: common_loop_None entries_def simp del: common_loop.simps)

lemma common_loop_distinct:
  "distinct (map fst (entries (snd (common_loop L private ds None ts))))"
proof (cases ts)
  case Nil
  then show ?thesis by (simp add: entries_def)
next
  case (Cons t us)
  then show ?thesis
    by (simp add: common_loop_None entries_def distinct_map_filter sigs_of_distinct
          del: common_loop.simps)
qed

lemma common_key_iff:
  "k \<in> fst ` set (entries (snd (common_loop L private ds None (t0 # ts)))) \<longleftrightarrow>
     (\<exists>f0. map_of (sigs_of L private (wrap L t0)) k = Some f0 \<and>
        (\<forall>t\<in>set ts. \<exists>f. map_of (sigs_of L private (wrap L t)) k = Some f
                        \<and> Identical L (Signature f0) (Signature f)))"
proof -
  have d: "distinct (map fst (sigs_of L private (wrap L t0)))" by (rule sigs_of_distinct)
  have 1: "k \<in> fst ` set (entries (snd (common_loop L private ds None (t0 # ts)))) \<longleftrightarrow>
     (\<exists>f0. (k, f0) \<in> set (sigs_of L private (wrap L t0)) \<and>
        (\<forall>t\<in>set ts. \<not> deleted L (sigs_of L private (wrap L t)) (k, f0)))"
    by (auto simp: common_loop_None entries_def image_iff simp del: common_loop.simps)
  have 2: "\<And>sigs f0. \<not> deleted L sigs (k, f0) \<longleftrightarrow>
      (\<exists>f. map_of sigs k = Some f \<and> Identical L (Signature f0) (Signature f))"
    by (auto simp: deleted_def split: option.splits)
  show ?thesis unfolding 1 2 using d by simp
qed

subsection \<open>Exported methods, or all of them\<close>

text \<open>
  C4. For every type, a method of the method set has its name in the per-type map
  exactly when the name is exported or the \<open>private\<close> flag is set; every entry of the map
  is a method of the method set under its own name; when the names of the method set are
  distinct, the entry under a name is that method; and with \<open>private\<close> set the keys are
  the names of all methods.
\<close>

theorem sigs_of_exported_or_all:
  "(\<forall>m\<in>set (NewMethodSet L t).
      obj_Name (sel_Obj m) \<in> fst ` set (sigs_of L private t)
        \<longleftrightarrow> (private \<or> IsExported L (obj_Name (sel_Obj m))))
   \<and> (\<forall>k f. map_of (sigs_of L private t) k = Some f \<longrightarrow>
         (\<exists>m\<in>set (NewMethodSet L t). obj_Name (sel_Obj m) = k
            \<and> f = \<lparr>Signature = sel_Type m, Obj = sel_Obj m\<rparr>))
   \<and> (distinct (map (\<lambda>m. obj_Name (sel_Obj m)) (NewMethodSet L t)) \<longrightarrow>
        (\<forall>m\<in>set (NewMethodSet L t). private \<or> IsExported L (obj_Name (sel_Obj m)) \<longrightarrow>
           map_of (sigs_of L private t) (obj_Name (sel_Obj m))
             = Some \<lparr>Signature = sel_Type m, Obj = sel_Obj m\<rparr>))
   \<and> fst ` set (sigs_of L True t) = (\<lambda>m. obj_Name (sel_Obj m)) ` set (NewMethodSet L t)"
proof (intro conjI ballI allI impI)
  fix m assume "m \<in> set (NewMethodSet L t)"
  then show "obj_Name (sel_Obj m) \<in> fst ` set (sigs_of L private t)
        \<longleftrightarrow> (private \<or> IsExported L (obj_Name (sel_Obj m)))"
    unfolding sigs_of_keys by auto
next
  fix k f assume "map_of (sigs_of L private t) k = Some f"
  from sigs_of_from [OF this]
  show "\<exists>m\<in>set (NewMethodSet L t). obj_Name (sel_Obj m) = k
            \<and> f = \<lparr>Signature = sel_Type m, Obj = sel_Obj m\<rparr>" by blast
next
  fix m
  assume "distinct (map (\<lambda>m. obj_Name (sel_Obj m)) (NewMethodSet L t))"
    "m \<in> set (NewMethodSet L t)" "private \<or> IsExported L (obj_Name (sel_Obj m))"
  then show "map_of (sigs_of L private t) (obj_Name (sel_Obj m))
             = Some \<lparr>Signature = sel_Type m, Obj = sel_Obj m\<rparr>"
    unfolding sigs_of_def by (rule foldl_add_method_last)
next
  show "fst ` set (sigs_of L True t) = (\<lambda>m. obj_Name (sel_Obj m)) ` set (NewMethodSet L t)"
    unfolding sigs_of_keys by auto
qed

theorem sigs_of_exported_or_all_witness:
  "''Close'' \<in> fst ` set (sigs_of ex_lib False (Pointer (Named ''ex'' ''A'')))
   \<and> ''reset'' \<notin> fst ` set (sigs_of ex_lib False (Pointer (Named ''ex'' ''A'')))
   \<and> ''reset'' \<in> fst ` set (sigs_of ex_lib True (Pointer (Named ''ex'' ''A'')))
   \<and> map_of (sigs_of ex_lib False (Pointer (Named ''ex'' ''A''))) ''Size''
       = Some \<lparr>Signature = (''func() int'', ''func() int''),
               Obj = \<lparr>obj_Name = ''Size'', obj_Type = Other ''func() int'', obj_Pos = 12, obj_Kind = Func\<rparr>\<rparr>"
proof -
  let ?t = "Pointer (Named ''ex'' ''A'')"
  have c: "ex_method ''Close'' 10 ''func() error'' ''func() error'' \<in> set (NewMethodSet ex_lib ?t)"
    and r: "ex_method ''reset'' 13 ''func()'' ''func()'' \<in> set (NewMethodSet ex_lib ?t)"
    and z: "ex_method ''Size'' 12 ''func() int'' ''func() int'' \<in> set (NewMethodSet ex_lib ?t)"
    by (simp_all add: ex_lib_def)
  have d: "distinct (map (\<lambda>m. obj_Name (sel_Obj m)) (NewMethodSet ex_lib ?t))"
    by (simp add: ex_lib_def ex_method_def)
  have e: "IsExported ex_lib ''Close''" "\<not> IsExported ex_lib ''reset''" "IsExported ex_lib ''Size''"
    by (simp_all add: ex_lib_def)
  note f = sigs_of_exported_or_all [of ex_lib ?t False]
  note g = sigs_of_exported_or_all [of ex_lib ?t True]
  from f [THEN conjunct1, THEN bspec, OF c] e
  have 1: "''Close'' \<in> fst ` set (sigs_of ex_lib False ?t)" by (simp add: ex_method_def)
  from f [THEN conjunct1, THEN bspec, OF r] e
  have 2: "''reset'' \<notin> fst ` set (sigs_of ex_lib False ?t)" by (simp add: ex_method_def)
  from g [THEN conjunct1, THEN bspec, OF r]
  have 3: "''reset'' \<in> fst ` set (sigs_of ex_lib True ?t)" by (simp add: ex_method_def)
  from f [THEN conjunct2, THEN conjunct2, THEN conjunct1, THEN mp, OF d, THEN bspec, OF z] e
  have 4: "map_of (sigs_of ex_lib False ?t) ''Size''
       = Some \<lparr>Signature = (''func() int'', ''func() int''),
               Obj = \<lparr>obj_Name = ''Size'', obj_Type = Other ''func() int'', obj_Pos = 12, obj_Kind = Func\<rparr>\<rparr>"
    by (simp add: ex_method_def)
  from 1 2 3 4 show ?thesis by (intro conjI)
qed

subsection \<open>The intersection\<close>

lemma common_loop_snoc:
  "snd (common_loop L private [] None ((t0 # ts) @ [t])) =
     Some (remove_missing L (sigs_of L private (wrap L t))
             (entries (snd (common_loop L private [] None (t0 # ts)))))"
proof -
  obtain c where c: "snd (common_loop L private [] None (t0 # ts)) = Some c"
    using common_loop_None [of L "private" "[]" t0 ts] by blast
  have "snd (common_loop L private [] None ((t0 # ts) @ [t]))
          = snd (common_loop L private [] (Some c) [t])"
    by (simp only: common_loop_append c)
  also have "\<dots> = Some (remove_missing L (sigs_of L private (wrap L t)) c)"
    by (simp add: Let_def)
  finally show ?thesis by (simp only: c entries_def option.case)
qed

lemma common_key_symmetric:
  assumes "equivp (Identical L)"
  shows "k \<in> fst ` set (entries (snd (common_loop L private [] None (t0 # ts)))) \<longleftrightarrow>
     (\<forall>t\<in>set (t0 # ts). \<exists>f. map_of (sigs_of L private (wrap L t)) k = Some f) \<and>
     (\<forall>t\<in>set (t0 # ts). \<forall>u\<in>set (t0 # ts). \<forall>f g.
         map_of (sigs_of L private (wrap L t)) k = Some f \<longrightarrow>
         map_of (sigs_of L private (wrap L u)) k = Some g \<longrightarrow>
         Identical L (Signature f) (Signature g))"
    (is "?lhs \<longleftrightarrow> ?all \<and> ?pair")
proof
  assume ?lhs
  then obtain f0 where f0: "map_of (sigs_of L private (wrap L t0)) k = Some f0"
    and rest: "\<forall>t\<in>set ts. \<exists>f. map_of (sigs_of L private (wrap L t)) k = Some f
                        \<and> Identical L (Signature f0) (Signature f)"
    unfolding common_key_iff by blast
  have to0: "\<And>t f. t \<in> set (t0 # ts) \<Longrightarrow> map_of (sigs_of L private (wrap L t)) k = Some f
               \<Longrightarrow> Identical L (Signature f0) (Signature f)"
  proof -
    fix t f assume t: "t \<in> set (t0 # ts)" and f: "map_of (sigs_of L private (wrap L t)) k = Some f"
    show "Identical L (Signature f0) (Signature f)"
    proof (cases "t \<in> set ts")
      case True
      with rest f show ?thesis by fastforce
    next
      case False
      with t have "t = t0" by simp
      with f f0 have "f = f0" by simp
      then show ?thesis using assms by (simp add: equivp_reflp)
    qed
  qed
  have ?all using f0 rest by auto
  moreover have ?pair
  proof (intro ballI allI impI)
    fix t u f g
    assume "t \<in> set (t0 # ts)" "u \<in> set (t0 # ts)"
      "map_of (sigs_of L private (wrap L t)) k = Some f"
      "map_of (sigs_of L private (wrap L u)) k = Some g"
    then have "Identical L (Signature f0) (Signature f)" "Identical L (Signature f0) (Signature g)"
      using to0 by blast+
    then show "Identical L (Signature f) (Signature g)"
      using assms by (meson equivp_symp equivp_transp)
  qed
  ultimately show "?all \<and> ?pair" ..
next
  assume r: "?all \<and> ?pair"
  then obtain f0 where f0: "map_of (sigs_of L private (wrap L t0)) k = Some f0" by auto
  have "\<forall>t\<in>set ts. \<exists>f. map_of (sigs_of L private (wrap L t)) k = Some f
                        \<and> Identical L (Signature f0) (Signature f)"
  proof
    fix t assume t: "t \<in> set ts"
    with r obtain f where f: "map_of (sigs_of L private (wrap L t)) k = Some f" by auto
    from r have ?pair ..
    then have "Identical L (Signature f0) (Signature f)"
      using f0 f t by (meson list.set_intros)
    with f show "\<exists>f. map_of (sigs_of L private (wrap L t)) k = Some f
                        \<and> Identical L (Signature f0) (Signature f)" by blast
  qed
  with f0 show ?lhs unfolding common_key_iff by blast
qed

text \<open>
  C1. The first type's map is the initial common map, and each later type only removes
  entries: those whose name it lacks or whose signature is not identical to its own. So
  a name is in the common map exactly when the first type has it and every later type
  has it with a signature identical to the first type's. When \<open>types.Identical\<close> is an
  equivalence relation, that is: every listed type has the name in its map, and any two
  of the types give it identical signatures.
\<close>

theorem common_is_intersection:
  "snd (common_loop L private [] None [t0]) = Some (sigs_of L private (wrap L t0))
   \<and> snd (common_loop L private [] None ((t0 # ts) @ [t])) =
       Some (remove_missing L (sigs_of L private (wrap L t))
               (entries (snd (common_loop L private [] None (t0 # ts)))))
   \<and> (\<forall>kv. kv \<in> set (remove_missing L sigs c) \<longleftrightarrow>
          kv \<in> set c \<and> (\<exists>s. map_of sigs (fst kv) = Some s
                            \<and> Identical L (Signature (snd kv)) (Signature s)))
   \<and> (k \<in> fst ` set (entries (snd (common_loop L private [] None (t0 # ts)))) \<longleftrightarrow>
        (\<exists>f0. map_of (sigs_of L private (wrap L t0)) k = Some f0 \<and>
           (\<forall>t\<in>set ts. \<exists>f. map_of (sigs_of L private (wrap L t)) k = Some f
                           \<and> Identical L (Signature f0) (Signature f))))
   \<and> (equivp (Identical L) \<longrightarrow>
        (k \<in> fst ` set (entries (snd (common_loop L private [] None (t0 # ts)))) \<longleftrightarrow>
           (\<forall>t\<in>set (t0 # ts). \<exists>f. map_of (sigs_of L private (wrap L t)) k = Some f) \<and>
           (\<forall>t\<in>set (t0 # ts). \<forall>u\<in>set (t0 # ts). \<forall>f g.
               map_of (sigs_of L private (wrap L t)) k = Some f \<longrightarrow>
               map_of (sigs_of L private (wrap L u)) k = Some g \<longrightarrow>
               Identical L (Signature f) (Signature g))))"
proof (intro conjI allI impI)
  show "snd (common_loop L private [] None [t0]) = Some (sigs_of L private (wrap L t0))"
    by (simp add: Let_def)
  show "snd (common_loop L private [] None ((t0 # ts) @ [t])) =
       Some (remove_missing L (sigs_of L private (wrap L t))
               (entries (snd (common_loop L private [] None (t0 # ts)))))"
    by (rule common_loop_snoc)
  show "\<And>kv. kv \<in> set (remove_missing L sigs c) \<longleftrightarrow>
          kv \<in> set c \<and> (\<exists>s. map_of sigs (fst kv) = Some s
                            \<and> Identical L (Signature (snd kv)) (Signature s))"
    by (rule remove_missing_iff)
  show "k \<in> fst ` set (entries (snd (common_loop L private [] None (t0 # ts)))) \<longleftrightarrow>
        (\<exists>f0. map_of (sigs_of L private (wrap L t0)) k = Some f0 \<and>
           (\<forall>t\<in>set ts. \<exists>f. map_of (sigs_of L private (wrap L t)) k = Some f
                           \<and> Identical L (Signature f0) (Signature f)))"
    by (rule common_key_iff)
  assume "equivp (Identical L)"
  then show "k \<in> fst ` set (entries (snd (common_loop L private [] None (t0 # ts)))) \<longleftrightarrow>
           (\<forall>t\<in>set (t0 # ts). \<exists>f. map_of (sigs_of L private (wrap L t)) k = Some f) \<and>
           (\<forall>t\<in>set (t0 # ts). \<forall>u\<in>set (t0 # ts). \<forall>f g.
               map_of (sigs_of L private (wrap L t)) k = Some f \<longrightarrow>
               map_of (sigs_of L private (wrap L u)) k = Some g \<longrightarrow>
               Identical L (Signature f) (Signature g))"
    by (rule common_key_symmetric)
qed

lemma ex_Identical_equivp: "equivp (Identical ex_lib)"
  by (auto intro!: equivpI reflpI sympI transpI simp: ex_lib_def)

lemmas ex_eval = ex_lib_def ex_method_def sigs_of_def add_method_def wrap_def Let_def

lemma ex_sigs_A:
  "sigs_of ex_lib False (wrap ex_lib (Named ''ex'' ''A'')) =
     [(''Close'', \<lparr>Signature = (''func() error'', ''func() error''),
                  Obj = \<lparr>obj_Name = ''Close'', obj_Type = Other ''func() error'', obj_Pos = 10, obj_Kind = Func\<rparr>\<rparr>),
      (''Read'', \<lparr>Signature = (''func([]byte) (int, error)'', ''func(b []byte) (n int, err error)''),
                 Obj = \<lparr>obj_Name = ''Read'', obj_Type = Other ''func(b []byte) (n int, err error)'',
                        obj_Pos = 11, obj_Kind = Func\<rparr>\<rparr>),
      (''Size'', \<lparr>Signature = (''func() int'', ''func() int''),
                 Obj = \<lparr>obj_Name = ''Size'', obj_Type = Other ''func() int'', obj_Pos = 12, obj_Kind = Func\<rparr>\<rparr>)]"
  by (simp add: ex_eval)

lemma ex_sigs_B:
  "sigs_of ex_lib False (wrap ex_lib (Named ''ex'' ''B'')) =
     [(''Size'', \<lparr>Signature = (''func() int64'', ''func() int64''),
                 Obj = \<lparr>obj_Name = ''Size'', obj_Type = Other ''func() int64'', obj_Pos = 22, obj_Kind = Func\<rparr>\<rparr>),
      (''Read'', \<lparr>Signature = (''func([]byte) (int, error)'', ''func(p []byte) (int, error)''),
                 Obj = \<lparr>obj_Name = ''Read'', obj_Type = Other ''func(p []byte) (int, error)'',
                        obj_Pos = 21, obj_Kind = Func\<rparr>\<rparr>),
      (''Close'', \<lparr>Signature = (''func() error'', ''func() (err error)''),
                  Obj = \<lparr>obj_Name = ''Close'', obj_Type = Other ''func() (err error)'', obj_Pos = 20, obj_Kind = Func\<rparr>\<rparr>)]"
  by (simp add: ex_eval)

theorem common_is_intersection_witness:
  "equivp (Identical ex_lib)
   \<and> ''Read'' \<in> fst ` set (entries (snd (common_loop ex_lib False [] None
                                           [Named ''ex'' ''A'', Named ''ex'' ''B''])))
   \<and> ''Size'' \<notin> fst ` set (entries (snd (common_loop ex_lib False [] None
                                           [Named ''ex'' ''A'', Named ''ex'' ''B''])))"
proof -
  note t = common_is_intersection [of ex_lib False "Named ''ex'' ''A''" "[Named ''ex'' ''B'']"]
  note sym = t [THEN conjunct2, THEN conjunct2, THEN conjunct2, THEN conjunct2, THEN mp,
      OF ex_Identical_equivp]
  have 1: "''Read'' \<in> fst ` set (entries (snd (common_loop ex_lib False [] None
                                           [Named ''ex'' ''A'', Named ''ex'' ''B''])))"
    unfolding sym by (simp add: ex_sigs_A ex_sigs_B) (simp add: ex_lib_def)
  have 2: "''Size'' \<notin> fst ` set (entries (snd (common_loop ex_lib False [] None
                                           [Named ''ex'' ''A'', Named ''ex'' ''B''])))"
    unfolding sym by (simp add: ex_sigs_A ex_sigs_B) (simp add: ex_lib_def)
  from ex_Identical_equivp 1 2 show ?thesis by (intro conjI)
qed

subsection \<open>Pointer wrapping\<close>

lemma Pointer_neq: "t \<noteq> Pointer t"
  by (induction t) auto

text \<open>
  C3 read as a condition on method sets fails. \<open>ex.C\<close> has value receivers only, so its
  pointer type has the same method set, and it is wrapped; the interface \<open>ex.J\<close> and its
  pointer type have the same (empty) method set too, and it is not wrapped. \<open>ex.A\<close> is
  wrapped, and its pointer type has more methods. So a type is wrapped neither exactly
  when the pointer form has more methods nor exactly when it has no more.
\<close>

theorem wrap_is_not_a_method_set_test:
  "wrap ex_lib (Named ''ex'' ''C'') = Pointer (Named ''ex'' ''C'')
   \<and> NewMethodSet ex_lib (Pointer (Named ''ex'' ''C'')) = NewMethodSet ex_lib (Named ''ex'' ''C'')
   \<and> wrap ex_lib (Named ''ex'' ''J'') = Named ''ex'' ''J''
   \<and> NewMethodSet ex_lib (Pointer (Named ''ex'' ''J'')) = NewMethodSet ex_lib (Named ''ex'' ''J'')
   \<and> wrap ex_lib (Named ''ex'' ''A'') = Pointer (Named ''ex'' ''A'')
   \<and> \<not> set (NewMethodSet ex_lib (Pointer (Named ''ex'' ''A'')))
         \<subseteq> set (NewMethodSet ex_lib (Named ''ex'' ''A''))"
  by (simp add: wrap_def ex_lib_def ex_method_def)

text \<open>
  C3, as the code tests it. A resolved type is replaced by its pointer type exactly
  when it is neither a pointer type nor an interface type; pointer types and interface
  types are left as they are. The list \<open>typs\<close> after the loop holds the wrapped types,
  in order. Where the library's method sets follow the language (the pointer to a type
  that is neither a pointer nor an interface has every method of the type; the pointer
  to a pointer or to an interface has no methods), the wrapped type has every method
  of the type, and a type is left as it is only when its pointer type has no methods:
  every type whose pointer form has more methods is wrapped.
\<close>

theorem wrap_unless_pointer_or_interface:
  "(isPtr t \<longrightarrow> wrap L t = t)
   \<and> (IsInterface L t \<longrightarrow> wrap L t = t)
   \<and> (\<not> isPtr t \<and> \<not> IsInterface L t \<longrightarrow> wrap L t = Pointer t)
   \<and> (wrap L t = Pointer t \<longleftrightarrow> \<not> isPtr t \<and> \<not> IsInterface L t)
   \<and> fst (common_loop L private [] None typs) = map (wrap L) typs
   \<and> ((\<forall>u. \<not> isPtr u \<and> \<not> IsInterface L u \<longrightarrow>
            set (NewMethodSet L u) \<subseteq> set (NewMethodSet L (Pointer u))) \<longrightarrow>
        set (NewMethodSet L t) \<subseteq> set (NewMethodSet L (wrap L t)))
   \<and> ((\<forall>u. isPtr u \<or> IsInterface L u \<longrightarrow> NewMethodSet L (Pointer u) = []) \<longrightarrow>
        (wrap L t = t \<longrightarrow> NewMethodSet L (Pointer t) = [])
        \<and> (\<not> set (NewMethodSet L (Pointer t)) \<subseteq> set (NewMethodSet L t) \<longrightarrow>
             wrap L t = Pointer t))"
proof -
  have 1: "(isPtr t \<longrightarrow> wrap L t = t) \<and> (IsInterface L t \<longrightarrow> wrap L t = t)
     \<and> (\<not> isPtr t \<and> \<not> IsInterface L t \<longrightarrow> wrap L t = Pointer t)
     \<and> (wrap L t = Pointer t \<longleftrightarrow> \<not> isPtr t \<and> \<not> IsInterface L t)
     \<and> fst (common_loop L private [] None typs) = map (wrap L) typs"
    using Pointer_neq [of t] by (auto simp: wrap_def common_loop_fst)
  have 2: "(\<forall>u. \<not> isPtr u \<and> \<not> IsInterface L u \<longrightarrow>
            set (NewMethodSet L u) \<subseteq> set (NewMethodSet L (Pointer u))) \<longrightarrow>
        set (NewMethodSet L t) \<subseteq> set (NewMethodSet L (wrap L t))"
    by (simp add: wrap_def)
  have 3: "(\<forall>u. isPtr u \<or> IsInterface L u \<longrightarrow> NewMethodSet L (Pointer u) = []) \<longrightarrow>
        (wrap L t = t \<longrightarrow> NewMethodSet L (Pointer t) = [])
        \<and> (\<not> set (NewMethodSet L (Pointer t)) \<subseteq> set (NewMethodSet L t) \<longrightarrow>
             wrap L t = Pointer t)"
  proof (intro impI conjI)
    assume law: "\<forall>u. isPtr u \<or> IsInterface L u \<longrightarrow> NewMethodSet L (Pointer u) = []"
    {
      assume "wrap L t = t"
      then have "isPtr t \<or> IsInterface L t"
        using Pointer_neq [of t] by (auto simp: wrap_def split: if_splits)
      with law show "NewMethodSet L (Pointer t) = []" by blast
    }
    {
      assume g: "\<not> set (NewMethodSet L (Pointer t)) \<subseteq> set (NewMethodSet L t)"
      show "wrap L t = Pointer t"
      proof (rule ccontr)
        assume "wrap L t \<noteq> Pointer t"
        then have "isPtr t \<or> IsInterface L t" by (auto simp: wrap_def split: if_splits)
        with law have "NewMethodSet L (Pointer t) = []" by blast
        with g show False by simp
      qed
    }
  qed
  from 1 2 3 show ?thesis by (intro conjI) blast+
qed

lemma ex_pointer_has_methods:
  "\<forall>u. \<not> isPtr u \<and> \<not> IsInterface ex_lib u \<longrightarrow>
         set (NewMethodSet ex_lib u) \<subseteq> set (NewMethodSet ex_lib (Pointer u))"
proof (intro allI impI)
  fix u assume "\<not> isPtr u \<and> \<not> IsInterface ex_lib u"
  then show "set (NewMethodSet ex_lib u) \<subseteq> set (NewMethodSet ex_lib (Pointer u))"
    by (cases u) (auto simp: ex_lib_def)
qed

lemma ex_pointer_to_pointer_or_interface:
  "\<forall>u. isPtr u \<or> IsInterface ex_lib u \<longrightarrow> NewMethodSet ex_lib (Pointer u) = []"
proof (intro allI impI)
  fix u assume "isPtr u \<or> IsInterface ex_lib u"
  then show "NewMethodSet ex_lib (Pointer u) = []"
    by (cases u) (auto simp: ex_lib_def)
qed

theorem wrap_unless_pointer_or_interface_witness:
  "wrap ex_lib (Named ''ex'' ''A'') = Pointer (Named ''ex'' ''A'')
   \<and> wrap ex_lib (Named ''ex'' ''I'') = Named ''ex'' ''I''
   \<and> wrap ex_lib (Pointer (Named ''ex'' ''A'')) = Pointer (Named ''ex'' ''A'')
   \<and> set (NewMethodSet ex_lib (Named ''ex'' ''A''))
       \<subseteq> set (NewMethodSet ex_lib (wrap ex_lib (Named ''ex'' ''A'')))
   \<and> NewMethodSet ex_lib (Pointer (Named ''ex'' ''I'')) = []
   \<and> wrap ex_lib (Named ''ex'' ''B'') = Pointer (Named ''ex'' ''B'')"
proof -
  have a: "\<not> isPtr (Named ''ex'' ''A'') \<and> \<not> IsInterface ex_lib (Named ''ex'' ''A'')"
    by (simp add: ex_lib_def)
  have i: "IsInterface ex_lib (Named ''ex'' ''I'')" by (simp add: ex_lib_def)
  have p: "isPtr (Pointer (Named ''ex'' ''A''))" by simp
  note 1 = wrap_unless_pointer_or_interface [of "Named ''ex'' ''A''" ex_lib,
      THEN conjunct2, THEN conjunct2, THEN conjunct1, THEN mp, OF a]
  note 2 = wrap_unless_pointer_or_interface [of "Named ''ex'' ''I''" ex_lib,
      THEN conjunct2, THEN conjunct1, THEN mp, OF i]
  note 3 = wrap_unless_pointer_or_interface [of "Pointer (Named ''ex'' ''A'')" ex_lib,
      THEN conjunct1, THEN mp, OF p]
  note 4 = wrap_unless_pointer_or_interface [of "Named ''ex'' ''A''" ex_lib,
      THEN conjunct2, THEN conjunct2, THEN conjunct2, THEN conjunct2, THEN conjunct2,
      THEN conjunct1, THEN mp, OF ex_pointer_has_methods]
  note 5 = wrap_unless_pointer_or_interface [of "Named ''ex'' ''I''" ex_lib,
      THEN conjunct2, THEN conjunct2, THEN conjunct2, THEN conjunct2, THEN conjunct2,
      THEN conjunct2, THEN mp, OF ex_pointer_to_pointer_or_interface, THEN conjunct1,
      THEN mp, OF 2]
  have g: "\<not> set (NewMethodSet ex_lib (Pointer (Named ''ex'' ''B'')))
             \<subseteq> set (NewMethodSet ex_lib (Named ''ex'' ''B''))"
    by (simp add: ex_lib_def)
  note 6 = wrap_unless_pointer_or_interface [of "Named ''ex'' ''B''" ex_lib,
      THEN conjunct2, THEN conjunct2, THEN conjunct2, THEN conjunct2, THEN conjunct2,
      THEN conjunct2, THEN mp, OF ex_pointer_to_pointer_or_interface, THEN conjunct2,
      THEN mp, OF g]
  from 1 2 3 4 5 6 show ?thesis by (intro conjI)
qed

subsection \<open>The values of the common map\<close>

lemma render_methods_cong:
  "\<forall>n\<in>set names. map_of c1 n = map_of c2 n \<Longrightarrow>
     render_methods L prog comments c1 names = render_methods L prog comments c2 names"
  by (induction names) (simp_all split: option.split sum.split)

lemma common_map_of_first:
  assumes "map_of (entries (snd (common_loop L private [] None (t0 # ts)))) k = Some v"
  shows "map_of (sigs_of L private (wrap L t0)) k = Some v"
proof -
  from assms have "(k, v) \<in> set (entries (snd (common_loop L private [] None (t0 # ts))))"
    by (rule map_of_SomeD)
  then have "(k, v) \<in> set (sigs_of L private (wrap L t0))"
    using common_loop_subset_first by blast
  then show ?thesis using sigs_of_distinct [of L "private" "wrap L t0"] by simp
qed

lemma sorted_names_set: "set (sorted_names common) = fst ` set (entries common)"
  by (simp add: sorted_names_def)

lemma render_methods_rows:
  "render_methods L prog comments c names = Inr body \<Longrightarrow>
     \<exists>rows. map fst rows = names
       \<and> (\<forall>r\<in>set rows. map_of c (fst r) = Some (snd (snd r))
                        \<and> doc_comment prog comments (snd (snd r)) = Inr (fst (snd r)))
       \<and> body = concat (map (\<lambda>r. fst (snd r) @ method_line L (fst r) (snd (snd r))) rows)"
proof (induction names arbitrary: body)
  case Nil
  then show ?case by simp
next
  case (Cons n names)
  from Cons.prems obtain m d rest where
    m: "map_of c n = Some m" and d: "doc_comment prog comments m = Inr d"
    and r: "render_methods L prog comments c names = Inr rest"
    and b: "body = d @ method_line L n m @ rest"
    by (auto split: option.splits sum.splits)
  from Cons.IH [OF r] obtain rows where rows: "map fst rows = names"
    "\<forall>r\<in>set rows. map_of c (fst r) = Some (snd (snd r))
                        \<and> doc_comment prog comments (snd (snd r)) = Inr (fst (snd r))"
    "rest = concat (map (\<lambda>r. fst (snd r) @ method_line L (fst r) (snd (snd r))) rows)"
    by blast
  show ?case
    by (rule exI [of _ "(n, d, m) # rows"]) (simp add: rows m d b)
qed

lemma doc_comment_True:
  "doc_comment prog True method = Inr d \<Longrightarrow>
     PathEnclosingInterval prog (obj_Pos (Obj method)) \<noteq> []
     \<and> d = doc_text (butlast (PathEnclosingInterval prog (obj_Pos (Obj method))))"
  by (auto simp: doc_comment_def Let_def split: if_splits)

lemma render_buf_docs_from_first:
  assumes "render_buf L prog True (snd (common_loop L private [] None (t0 # ts))) = Inr src"
  shows "\<exists>rows. map fst rows = sorted_names (snd (common_loop L private [] None (t0 # ts)))
           \<and> (\<forall>r\<in>set rows. \<exists>m\<in>set (NewMethodSet L (wrap L t0)).
                 obj_Name (sel_Obj m) = fst r
                 \<and> PathEnclosingInterval prog (obj_Pos (sel_Obj m)) \<noteq> []
                 \<and> fst (snd r)
                     = doc_text (butlast (PathEnclosingInterval prog (obj_Pos (sel_Obj m))))
                 \<and> snd (snd r) = sel_Type m)
           \<and> src = ''package common;type T interface{'' @ [CHR 0x0A]
                     @ concat (map (\<lambda>r. fst (snd r) @ [CHR 0x09] @ fst r
                                    @ TrimPrefix (TypeString L (snd (snd r))) ''func''
                                    @ [CHR 0x0A]) rows)
                     @ ''}'' @ [CHR 0x0A]"
proof -
  let ?c = "snd (common_loop L private [] None (t0 # ts))"
  from assms obtain body where
    b: "render_methods L prog True (entries ?c) (sorted_names ?c) = Inr body"
    and s: "src = ''package common;type T interface{'' @ [CHR 0x0A] @ body @ ''}'' @ [CHR 0x0A]"
    by (auto simp: render_buf_def split: sum.splits)
  from render_methods_rows [OF b] obtain rows0 where
    n: "map fst rows0 = sorted_names ?c"
    and r: "\<forall>r\<in>set rows0. map_of (entries ?c) (fst r) = Some (snd (snd r))
                        \<and> doc_comment prog True (snd (snd r)) = Inr (fst (snd r))"
    and body: "body = concat (map (\<lambda>r. fst (snd r) @ method_line L (fst r) (snd (snd r))) rows0)"
    by blast
  let ?rows = "map (\<lambda>r. (fst r, fst (snd r), Signature (snd (snd r)))) rows0"
  have 1: "map fst ?rows = sorted_names ?c" using n by (simp add: comp_def)
  have 2: "\<forall>r\<in>set ?rows. \<exists>m\<in>set (NewMethodSet L (wrap L t0)).
                 obj_Name (sel_Obj m) = fst r
                 \<and> PathEnclosingInterval prog (obj_Pos (sel_Obj m)) \<noteq> []
                 \<and> fst (snd r)
                     = doc_text (butlast (PathEnclosingInterval prog (obj_Pos (sel_Obj m))))
                 \<and> snd (snd r) = sel_Type m"
  proof
    fix r assume "r \<in> set ?rows"
    then obtain r0 where r0: "r0 \<in> set rows0"
      and req: "r = (fst r0, fst (snd r0), Signature (snd (snd r0)))" by auto
    from r r0 have mo: "map_of (entries ?c) (fst r0) = Some (snd (snd r0))"
      and dc: "doc_comment prog True (snd (snd r0)) = Inr (fst (snd r0))" by blast+
    from mo have "map_of (sigs_of L private (wrap L t0)) (fst r0) = Some (snd (snd r0))"
      by (rule common_map_of_first)
    from sigs_of_from [OF this] obtain m where m: "m \<in> set (NewMethodSet L (wrap L t0))"
      "obj_Name (sel_Obj m) = fst r0"
      "snd (snd r0) = \<lparr>Signature = sel_Type m, Obj = sel_Obj m\<rparr>" by blast
    from doc_comment_True [OF dc] m(3)
    have "PathEnclosingInterval prog (obj_Pos (sel_Obj m)) \<noteq> []"
      "fst (snd r0) = doc_text (butlast (PathEnclosingInterval prog (obj_Pos (sel_Obj m))))"
      by simp_all
    with m req show "\<exists>m\<in>set (NewMethodSet L (wrap L t0)).
                 obj_Name (sel_Obj m) = fst r
                 \<and> PathEnclosingInterval prog (obj_Pos (sel_Obj m)) \<noteq> []
                 \<and> fst (snd r)
                     = doc_text (butlast (PathEnclosingInterval prog (obj_Pos (sel_Obj m))))
                 \<and> snd (snd r) = sel_Type m"
      by (intro bexI [of _ m]) simp_all
  qed
  have 3: "src = ''package common;type T interface{'' @ [CHR 0x0A]
                     @ concat (map (\<lambda>r. fst (snd r) @ [CHR 0x09] @ fst r
                                    @ TrimPrefix (TypeString L (snd (snd r))) ''func''
                                    @ [CHR 0x0A]) ?rows)
                     @ ''}'' @ [CHR 0x0A]"
    unfolding s body by (simp add: comp_def method_line_def)
  from 1 2 3 show ?thesis by blast
qed

text \<open>
  C8. At every point of the loop, each pair of the common map is a pair of the first
  type's map: later types delete pairs and replace none. So a lookup in the common map
  gives the first type's entry, which is one of its methods, and rendering with the
  first type's own map in place of the common map gives the same text. With \<open>comments\<close>
  set, the buffer holds one block per name of the common map: the doc comment found on
  the path that encloses the position of a method of that name in the method set of the
  first (wrapped) type, all but the last node of the path being searched, and then
  the method line with the signature of that method.
\<close>

theorem common_values_from_first_type:
  "(\<forall>n. set (entries (snd (common_loop L private [] None (take n (t0 # ts)))))
          \<subseteq> set (sigs_of L private (wrap L t0)))
   \<and> set (entries (snd (common_loop L private [] None ((t0 # ts) @ [t]))))
          \<subseteq> set (entries (snd (common_loop L private [] None (t0 # ts))))
   \<and> (\<forall>k v. map_of (entries (snd (common_loop L private [] None (t0 # ts)))) k = Some v \<longrightarrow>
          map_of (sigs_of L private (wrap L t0)) k = Some v
          \<and> (\<exists>m\<in>set (NewMethodSet L (wrap L t0)).
                obj_Name (sel_Obj m) = k \<and> v = \<lparr>Signature = sel_Type m, Obj = sel_Obj m\<rparr>))
   \<and> render_methods L prog comments (entries (snd (common_loop L private [] None (t0 # ts))))
         (sorted_names (snd (common_loop L private [] None (t0 # ts))))
       = render_methods L prog comments (sigs_of L private (wrap L t0))
           (sorted_names (snd (common_loop L private [] None (t0 # ts))))
   \<and> (\<forall>src. render_buf L prog True (snd (common_loop L private [] None (t0 # ts))) = Inr src \<longrightarrow>
        (\<exists>rows. map fst rows = sorted_names (snd (common_loop L private [] None (t0 # ts)))
           \<and> (\<forall>r\<in>set rows. \<exists>m\<in>set (NewMethodSet L (wrap L t0)).
                 obj_Name (sel_Obj m) = fst r
                 \<and> PathEnclosingInterval prog (obj_Pos (sel_Obj m)) \<noteq> []
                 \<and> fst (snd r)
                     = doc_text (butlast (PathEnclosingInterval prog (obj_Pos (sel_Obj m))))
                 \<and> snd (snd r) = sel_Type m)
           \<and> src = ''package common;type T interface{'' @ [CHR 0x0A]
                     @ concat (map (\<lambda>r. fst (snd r) @ [CHR 0x09] @ fst r
                                    @ TrimPrefix (TypeString L (snd (snd r))) ''func''
                                    @ [CHR 0x0A]) rows)
                     @ ''}'' @ [CHR 0x0A]))"
proof (intro conjI allI impI)
  fix n
  show "set (entries (snd (common_loop L private [] None (take n (t0 # ts)))))
          \<subseteq> set (sigs_of L private (wrap L t0))"
  proof (cases n)
    case 0
    then show ?thesis by (simp add: entries_def)
  next
    case (Suc j)
    then show ?thesis using common_loop_subset_first [of L "private" "[]" t0 "take j ts"]
      by (simp del: common_loop.simps)
  qed
next
  show "set (entries (snd (common_loop L private [] None ((t0 # ts) @ [t]))))
          \<subseteq> set (entries (snd (common_loop L private [] None (t0 # ts))))"
    by (simp only: common_loop_snoc entries_def option.case remove_missing_subset)
next
  fix k v
  assume a: "map_of (entries (snd (common_loop L private [] None (t0 # ts)))) k = Some v"
  then show f: "map_of (sigs_of L private (wrap L t0)) k = Some v"
    by (rule common_map_of_first)
  from sigs_of_from [OF f]
  show "\<exists>m\<in>set (NewMethodSet L (wrap L t0)).
                obj_Name (sel_Obj m) = k \<and> v = \<lparr>Signature = sel_Type m, Obj = sel_Obj m\<rparr>"
    by blast
next
  let ?c = "snd (common_loop L private [] None (t0 # ts))"
  have "\<forall>n\<in>set (sorted_names ?c). map_of (entries ?c) n = map_of (sigs_of L private (wrap L t0)) n"
  proof
    fix n assume "n \<in> set (sorted_names ?c)"
    then have "n \<in> fst ` set (entries ?c)" by (simp only: sorted_names_set)
    then obtain v where "map_of (entries ?c) n = Some v"
      by (metis (no_types) weak_map_of_SomeI imageE prod.collapse)
    then show "map_of (entries ?c) n = map_of (sigs_of L private (wrap L t0)) n"
      using common_map_of_first by metis
  qed
  then show "render_methods L prog comments (entries ?c) (sorted_names ?c)
       = render_methods L prog comments (sigs_of L private (wrap L t0)) (sorted_names ?c)"
    by (rule render_methods_cong)
next
  fix src
  assume "render_buf L prog True (snd (common_loop L private [] None (t0 # ts))) = Inr src"
  then show "\<exists>rows. map fst rows = sorted_names (snd (common_loop L private [] None (t0 # ts)))
           \<and> (\<forall>r\<in>set rows. \<exists>m\<in>set (NewMethodSet L (wrap L t0)).
                 obj_Name (sel_Obj m) = fst r
                 \<and> PathEnclosingInterval prog (obj_Pos (sel_Obj m)) \<noteq> []
                 \<and> fst (snd r)
                     = doc_text (butlast (PathEnclosingInterval prog (obj_Pos (sel_Obj m))))
                 \<and> snd (snd r) = sel_Type m)
           \<and> src = ''package common;type T interface{'' @ [CHR 0x0A]
                     @ concat (map (\<lambda>r. fst (snd r) @ [CHR 0x09] @ fst r
                                    @ TrimPrefix (TypeString L (snd (snd r))) ''func''
                                    @ [CHR 0x0A]) rows)
                     @ ''}'' @ [CHR 0x0A]"
    by (rule render_buf_docs_from_first)
qed

lemma ex_common_AB:
  "snd (common_loop ex_lib False [] None [Named ''ex'' ''A'', Named ''ex'' ''B'']) =
     Some [(''Close'', \<lparr>Signature = (''func() error'', ''func() error''),
                  Obj = \<lparr>obj_Name = ''Close'', obj_Type = Other ''func() error'', obj_Pos = 10, obj_Kind = Func\<rparr>\<rparr>),
      (''Read'', \<lparr>Signature = (''func([]byte) (int, error)'', ''func(b []byte) (n int, err error)''),
                 Obj = \<lparr>obj_Name = ''Read'', obj_Type = Other ''func(b []byte) (n int, err error)'',
                        obj_Pos = 11, obj_Kind = Func\<rparr>\<rparr>)]"
  by (simp add: Let_def ex_sigs_A ex_sigs_B remove_missing_def deleted_def) (simp add: ex_lib_def)

theorem common_values_from_first_type_witness:
  "map_of (entries (snd (common_loop ex_lib False [] None [Named ''ex'' ''A'', Named ''ex'' ''B''])))
       ''Close''
     = Some \<lparr>Signature = (''func() error'', ''func() error''),
             Obj = \<lparr>obj_Name = ''Close'', obj_Type = Other ''func() error'', obj_Pos = 10, obj_Kind = Func\<rparr>\<rparr>
   \<and> map_of (sigs_of ex_lib False (wrap ex_lib (Named ''ex'' ''A''))) ''Close''
     = Some \<lparr>Signature = (''func() error'', ''func() error''),
             Obj = \<lparr>obj_Name = ''Close'', obj_Type = Other ''func() error'', obj_Pos = 10, obj_Kind = Func\<rparr>\<rparr>
   \<and> map_of (sigs_of ex_lib False (wrap ex_lib (Named ''ex'' ''B''))) ''Close''
     = Some \<lparr>Signature = (''func() error'', ''func() (err error)''),
             Obj = \<lparr>obj_Name = ''Close'', obj_Type = Other ''func() (err error)'', obj_Pos = 20, obj_Kind = Func\<rparr>\<rparr>
   \<and> doc_text (butlast (PathEnclosingInterval ex_prog 10)) = ''// Close closes A.'' @ [CHR 0x0A]
   \<and> doc_text (butlast (PathEnclosingInterval ex_prog 20)) = ''// Close closes B.'' @ [CHR 0x0A]
   \<and> render_buf ex_lib ex_prog True
         (snd (common_loop ex_lib False [] None [Named ''ex'' ''A'', Named ''ex'' ''B'']))
     = Inr (''package common;type T interface{'' @ [CHR 0x0A]
            @ ''// Close closes A.'' @ [CHR 0x0A]
            @ [CHR 0x09] @ ''Close() error'' @ [CHR 0x0A]
            @ [CHR 0x09] @ ''Read(b []byte) (n int, err error)'' @ [CHR 0x0A]
            @ ''}'' @ [CHR 0x0A])
   \<and> (\<exists>rows. map fst rows
                = sorted_names (snd (common_loop ex_lib False [] None
                                       [Named ''ex'' ''A'', Named ''ex'' ''B'']))
         \<and> (\<forall>r\<in>set rows. \<exists>m\<in>set (NewMethodSet ex_lib (wrap ex_lib (Named ''ex'' ''A''))).
                 obj_Name (sel_Obj m) = fst r
                 \<and> PathEnclosingInterval ex_prog (obj_Pos (sel_Obj m)) \<noteq> []
                 \<and> fst (snd r)
                     = doc_text (butlast (PathEnclosingInterval ex_prog (obj_Pos (sel_Obj m))))
                 \<and> snd (snd r) = sel_Type m)
         \<and> ''package common;type T interface{'' @ [CHR 0x0A]
            @ ''// Close closes A.'' @ [CHR 0x0A]
            @ [CHR 0x09] @ ''Close() error'' @ [CHR 0x0A]
            @ [CHR 0x09] @ ''Read(b []byte) (n int, err error)'' @ [CHR 0x0A]
            @ ''}'' @ [CHR 0x0A]
           = ''package common;type T interface{'' @ [CHR 0x0A]
               @ concat (map (\<lambda>r. fst (snd r) @ [CHR 0x09] @ fst r
                              @ TrimPrefix (TypeString ex_lib (snd (snd r))) ''func''
                              @ [CHR 0x0A]) rows)
               @ ''}'' @ [CHR 0x0A])"
proof -
  have h: "map_of (entries (snd (common_loop ex_lib False [] None
                                   [Named ''ex'' ''A'', Named ''ex'' ''B''])))
       ''Close''
     = Some \<lparr>Signature = (''func() error'', ''func() error''),
             Obj = \<lparr>obj_Name = ''Close'', obj_Type = Other ''func() error'', obj_Pos = 10, obj_Kind = Func\<rparr>\<rparr>"
    by (simp only: ex_common_AB entries_def option.case) simp
  note t = common_values_from_first_type [of ex_lib False "Named ''ex'' ''A''" "[Named ''ex'' ''B'']",
      THEN conjunct2, THEN conjunct2, THEN conjunct1, THEN spec, THEN spec, THEN mp, OF h,
      THEN conjunct1]
  have b: "map_of (sigs_of ex_lib False (wrap ex_lib (Named ''ex'' ''B''))) ''Close''
     = Some \<lparr>Signature = (''func() error'', ''func() (err error)''),
             Obj = \<lparr>obj_Name = ''Close'', obj_Type = Other ''func() (err error)'', obj_Pos = 20, obj_Kind = Func\<rparr>\<rparr>"
    by (simp add: ex_sigs_B)
  have da: "doc_text (butlast (PathEnclosingInterval ex_prog 10)) = ''// Close closes A.'' @ [CHR 0x0A]"
    and db: "doc_text (butlast (PathEnclosingInterval ex_prog 20)) = ''// Close closes B.'' @ [CHR 0x0A]"
    by (simp_all add: ex_prog_def ex_path_def)
  have r: "render_buf ex_lib ex_prog True
       (snd (common_loop ex_lib False [] None [Named ''ex'' ''A'', Named ''ex'' ''B'']))
     = Inr (''package common;type T interface{'' @ [CHR 0x0A]
            @ ''// Close closes A.'' @ [CHR 0x0A]
            @ [CHR 0x09] @ ''Close() error'' @ [CHR 0x0A]
            @ [CHR 0x09] @ ''Read(b []byte) (n int, err error)'' @ [CHR 0x0A]
            @ ''}'' @ [CHR 0x0A])"
    unfolding render_buf_def sorted_names_def
    by (simp only: ex_common_AB entries_def option.case)
       (simp add: doc_comment_def method_line_def TrimPrefix_def ex_lib_def ex_prog_def
          ex_path_def Let_def)
  note d = common_values_from_first_type [of ex_lib False "Named ''ex'' ''A''" "[Named ''ex'' ''B'']"
      _ ex_prog, THEN conjunct2, THEN conjunct2, THEN conjunct2, THEN conjunct2,
      THEN spec, THEN mp, OF r]
  from h t b da db r d show ?thesis by (intro conjI)
qed

subsection \<open>The order of the rendered methods\<close>

lemma sorted_names_strict:
  "distinct (map fst (entries common)) \<Longrightarrow> sorted_wrt (<) (sorted_names common)"
  by (simp add: sorted_names_def strict_sorted_iff)

lemma sorted_names_of_set:
  "distinct (map fst (entries common)) \<Longrightarrow>
     sorted_names common = sorted_list_of_set (fst ` set (entries common))"
proof -
  assume d: "distinct (map fst (entries common))"
  have "sorted_list_of_set (set (map fst (entries common))) = sort (remdups (map fst (entries common)))"
    by (rule sorted_list_of_set_sort_remdups)
  with d show ?thesis by (simp add: sorted_names_def distinct_remdups_id)
qed

lemma render_methods_total:
  "set names \<subseteq> fst ` set c \<Longrightarrow> \<exists>body. render_methods L prog False c names = Inr body"
proof (induction names)
  case Nil
  show ?case by simp
next
  case (Cons n names)
  then obtain body where b: "render_methods L prog False c names = Inr body" by auto
  from Cons.prems have "n \<in> fst ` set c" by simp
  then obtain m where "map_of c n = Some m"
    by (metis (no_types) weak_map_of_SomeI imageE prod.collapse)
  with b show ?case by (simp add: doc_comment_def)
qed

text \<open>
  C9. The names the rendering loop runs over are in strictly ascending byte-wise
  lexicographic order, for every list of types; they are the keys of the common map and
  depend on the set of keys only, not on the order in which any type lists its methods.
  The buffer holds, between its first line and the closing brace, one block per name in
  that order: the doc comment of the entry (empty without \<open>comments\<close>) and the method
  line. Without \<open>comments\<close> the rendering always succeeds.
\<close>

theorem methods_rendered_in_ascending_order:
  "sorted_wrt (<) (sorted_names (snd (common_loop L private [] None typs)))
   \<and> set (sorted_names (snd (common_loop L private [] None typs)))
       = fst ` set (entries (snd (common_loop L private [] None typs)))
   \<and> sorted_names (snd (common_loop L private [] None typs))
       = sorted_list_of_set (fst ` set (entries (snd (common_loop L private [] None typs))))
   \<and> (\<forall>src. render_buf L prog comments (snd (common_loop L private [] None typs)) = Inr src \<longrightarrow>
        (\<exists>rows. map fst rows = sorted_names (snd (common_loop L private [] None typs))
           \<and> (\<forall>r\<in>set rows.
                 map_of (entries (snd (common_loop L private [] None typs))) (fst r)
                   = Some (snd (snd r))
                 \<and> doc_comment prog comments (snd (snd r)) = Inr (fst (snd r)))
           \<and> src = ''package common;type T interface{'' @ [CHR 0x0A]
                     @ concat (map (\<lambda>r. fst (snd r) @ method_line L (fst r) (snd (snd r))) rows)
                     @ ''}'' @ [CHR 0x0A]))
   \<and> (\<exists>src. render_buf L prog False (snd (common_loop L private [] None typs)) = Inr src)"
proof -
  let ?c = "snd (common_loop L private [] None typs)"
  have d: "distinct (map fst (entries ?c))" by (rule common_loop_distinct)
  have 1: "sorted_wrt (<) (sorted_names ?c)" using d by (rule sorted_names_strict)
  have 2: "set (sorted_names ?c) = fst ` set (entries ?c)" by (rule sorted_names_set)
  have 3: "sorted_names ?c = sorted_list_of_set (fst ` set (entries ?c))"
    using d by (rule sorted_names_of_set)
  have 4: "\<forall>src. render_buf L prog comments ?c = Inr src \<longrightarrow>
        (\<exists>rows. map fst rows = sorted_names ?c
           \<and> (\<forall>r\<in>set rows. map_of (entries ?c) (fst r) = Some (snd (snd r))
                 \<and> doc_comment prog comments (snd (snd r)) = Inr (fst (snd r)))
           \<and> src = ''package common;type T interface{'' @ [CHR 0x0A]
                     @ concat (map (\<lambda>r. fst (snd r) @ method_line L (fst r) (snd (snd r))) rows)
                     @ ''}'' @ [CHR 0x0A])"
  proof (intro allI impI)
    fix src assume "render_buf L prog comments ?c = Inr src"
    then obtain body where b: "render_methods L prog comments (entries ?c) (sorted_names ?c) = Inr body"
      and s: "src = ''package common;type T interface{'' @ [CHR 0x0A] @ body @ ''}'' @ [CHR 0x0A]"
      by (auto simp: render_buf_def split: sum.splits)
    from render_methods_rows [OF b] s
    show "\<exists>rows. map fst rows = sorted_names ?c
           \<and> (\<forall>r\<in>set rows. map_of (entries ?c) (fst r) = Some (snd (snd r))
                 \<and> doc_comment prog comments (snd (snd r)) = Inr (fst (snd r)))
           \<and> src = ''package common;type T interface{'' @ [CHR 0x0A]
                     @ concat (map (\<lambda>r. fst (snd r) @ method_line L (fst r) (snd (snd r))) rows)
                     @ ''}'' @ [CHR 0x0A]"
      by blast
  qed
  have "set (sorted_names ?c) \<subseteq> fst ` set (entries ?c)" using 2 by simp
  from render_methods_total [OF this, of L prog]
  obtain body where "render_methods L prog False (entries ?c) (sorted_names ?c) = Inr body"
    by blast
  then have 5: "\<exists>src. render_buf L prog False ?c = Inr src"
    by (simp add: render_buf_def)
  from 1 2 3 4 5 show ?thesis by (intro conjI)
qed

lemma ex_common_BA:
  "snd (common_loop ex_lib False [] None [Named ''ex'' ''B'', Named ''ex'' ''A'']) =
     Some [(''Read'', \<lparr>Signature = (''func([]byte) (int, error)'', ''func(p []byte) (int, error)''),
                 Obj = \<lparr>obj_Name = ''Read'', obj_Type = Other ''func(p []byte) (int, error)'',
                        obj_Pos = 21, obj_Kind = Func\<rparr>\<rparr>),
      (''Close'', \<lparr>Signature = (''func() error'', ''func() (err error)''),
                  Obj = \<lparr>obj_Name = ''Close'', obj_Type = Other ''func() (err error)'', obj_Pos = 20, obj_Kind = Func\<rparr>\<rparr>)]"
  by (simp add: Let_def ex_sigs_A ex_sigs_B remove_missing_def deleted_def) (simp add: ex_lib_def)

theorem methods_rendered_in_ascending_order_witness:
  "render_buf ex_lib ex_prog False
       (snd (common_loop ex_lib False [] None [Named ''ex'' ''B'', Named ''ex'' ''A'']))
     = Inr (''package common;type T interface{'' @ [CHR 0x0A]
            @ [CHR 0x09] @ ''Close() (err error)'' @ [CHR 0x0A]
            @ [CHR 0x09] @ ''Read(p []byte) (int, error)'' @ [CHR 0x0A]
            @ ''}'' @ [CHR 0x0A])
   \<and> sorted_names (snd (common_loop ex_lib False [] None [Named ''ex'' ''B'', Named ''ex'' ''A'']))
     = [''Close'', ''Read'']
   \<and> (\<exists>rows. map fst rows = [''Close'', ''Read'']
         \<and> (\<forall>r\<in>set rows.
                 map_of (entries (snd (common_loop ex_lib False [] None
                                         [Named ''ex'' ''B'', Named ''ex'' ''A''])))
                    (fst r) = Some (snd (snd r))
                 \<and> doc_comment ex_prog False (snd (snd r)) = Inr (fst (snd r)))
         \<and> ''package common;type T interface{'' @ [CHR 0x0A]
            @ [CHR 0x09] @ ''Close() (err error)'' @ [CHR 0x0A]
            @ [CHR 0x09] @ ''Read(p []byte) (int, error)'' @ [CHR 0x0A]
            @ ''}'' @ [CHR 0x0A]
           = ''package common;type T interface{'' @ [CHR 0x0A]
               @ concat (map (\<lambda>r. fst (snd r) @ method_line ex_lib (fst r) (snd (snd r))) rows)
               @ ''}'' @ [CHR 0x0A])"
proof -
  let ?c = "snd (common_loop ex_lib False [] None [Named ''ex'' ''B'', Named ''ex'' ''A''])"
  have n: "sorted_names ?c = [''Close'', ''Read'']"
    by (simp only: ex_common_BA sorted_names_def entries_def option.case) simp
  have h: "render_buf ex_lib ex_prog False ?c
     = Inr (''package common;type T interface{'' @ [CHR 0x0A]
            @ [CHR 0x09] @ ''Close() (err error)'' @ [CHR 0x0A]
            @ [CHR 0x09] @ ''Read(p []byte) (int, error)'' @ [CHR 0x0A]
            @ ''}'' @ [CHR 0x0A])"
    unfolding render_buf_def n
    by (simp only: ex_common_BA entries_def option.case)
       (simp add: doc_comment_def method_line_def TrimPrefix_def ex_lib_def)
  note t = methods_rendered_in_ascending_order [of ex_lib False "[Named ''ex'' ''B'', Named ''ex'' ''A'']"
      ex_prog False, THEN conjunct2, THEN conjunct2, THEN conjunct2, THEN conjunct1,
      THEN spec, THEN mp, OF h]
  from h n t show ?thesis by (simp only: n) 
qed

subsection \<open>Successful runs\<close>

lemma parse_args_length: "parse_args args = Inr as \<Longrightarrow> length as = length args"
  by (induction args arbitrary: as) (auto split: sum.splits)

lemma lookup_types_length: "lookup_types prog as = Inr typs \<Longrightarrow> length typs = length as"
  by (induction as arbitrary: typs) (auto split: option.splits gotype.splits sum.splits)

lemma main_Inr:
  assumes "main L comments header private args = Inr out"
  shows "\<exists>argTypes prog typs src.
           args \<noteq> [] \<and> parse_args args = Inr argTypes
           \<and> conf_Load L comments (map pkg argTypes) = Inr prog
           \<and> lookup_types prog argTypes = Inr typs
           \<and> length typs = length args
           \<and> render_buf L prog comments (snd (common_loop L private [] None typs)) = Inr src
           \<and> out = header_text L header (snd (common_loop L private [] None typs))
                      (map (wrap L) typs) @ pretty L src"
proof -
  from assms have ne: "args \<noteq> []" by (auto simp: main_def)
  with assms obtain argTypes where p: "parse_args args = Inr argTypes"
    by (cases "parse_args args") (auto simp: main_def)
  with assms ne obtain prog where l: "conf_Load L comments (map pkg argTypes) = Inr prog"
    by (cases "conf_Load L comments (map pkg argTypes)") (auto simp: main_def)
  with assms ne p obtain typs where t: "lookup_types prog argTypes = Inr typs"
    by (cases "lookup_types prog argTypes") (auto simp: main_def)
  with assms ne p l obtain src where
    r: "render_buf L prog comments (snd (common_loop L private [] None typs)) = Inr src"
    and o: "out = header_text L header (snd (common_loop L private [] None typs))
                      (fst (common_loop L private [] None typs)) @ pretty L src"
    by (cases "render_buf L prog comments (snd (common_loop L private [] None typs))")
       (auto simp: main_def Let_def)
  have len: "length typs = length args"
    using parse_args_length [OF p] lookup_types_length [OF t] by simp
  from ne p l t len r o show ?thesis by (simp add: common_loop_fst)
qed

lemma common_contained:
  assumes kv: "kv \<in> set (entries (snd (common_loop L private [] None typs)))"
    and t: "t \<in> set typs" and refl: "\<forall>s. Identical L s s"
  shows "\<exists>m\<in>set (NewMethodSet L (wrap L t)).
           obj_Name (sel_Obj m) = fst kv \<and> Identical L (Signature (snd kv)) (sel_Type m)"
proof -
  from t obtain t0 ts where typs: "typs = t0 # ts" by (cases typs) auto
  from kv have in0: "kv \<in> set (sigs_of L private (wrap L t0))"
    and keep: "\<forall>u\<in>set ts. \<not> deleted L (sigs_of L private (wrap L u)) kv"
    by (auto simp: typs common_loop_None entries_def simp del: common_loop.simps)
  show ?thesis
  proof (cases "t \<in> set ts")
    case True
    with keep obtain s where s: "map_of (sigs_of L private (wrap L t)) (fst kv) = Some s"
      and i: "Identical L (Signature (snd kv)) (Signature s)"
      by (auto simp: deleted_def split: option.splits)
    from sigs_of_from [OF s] i show ?thesis by auto
  next
    case False
    with t typs have t0: "t = t0" by simp
    from in0 have "map_of (sigs_of L private (wrap L t0)) (fst kv) = Some (snd kv)"
      using sigs_of_distinct [of L "private" "wrap L t0"] by simp
    from sigs_of_from [OF this] refl t0 show ?thesis by auto
  qed
qed

text \<open>
  C2. When the program succeeds, the arguments were split, the packages loaded and the
  types found, the output is the header followed by the formatted rendering of the
  common map, and every method of that map (the methods of the printed interface, and
  the ones handed to \<open>types.NewInterface\<close>) is in the method set of every wrapped type
  under the same name with an identical signature. \<open>types.Identical\<close> is taken to be
  reflexive, which the first type needs.
\<close>

theorem types_implement_printed_interface:
  assumes "main L comments header private args = Inr out" and "\<forall>s. Identical L s s"
  shows "\<exists>argTypes prog typs src.
           parse_args args = Inr argTypes
           \<and> conf_Load L comments (map pkg argTypes) = Inr prog
           \<and> lookup_types prog argTypes = Inr typs
           \<and> render_buf L prog comments (snd (common_loop L private [] None typs)) = Inr src
           \<and> out = header_text L header (snd (common_loop L private [] None typs))
                      (map (wrap L) typs) @ pretty L src
           \<and> (\<forall>t\<in>set (map (wrap L) typs).
                \<forall>f\<in>set (iface_funcs (snd (common_loop L private [] None typs))).
                  \<exists>m\<in>set (NewMethodSet L t).
                    obj_Name (sel_Obj m) = fst f \<and> Identical L (snd f) (sel_Type m))"
proof -
  from main_Inr [OF assms(1)] obtain argTypes prog typs src where
    d: "parse_args args = Inr argTypes" "conf_Load L comments (map pkg argTypes) = Inr prog"
       "lookup_types prog argTypes = Inr typs"
       "render_buf L prog comments (snd (common_loop L private [] None typs)) = Inr src"
       "out = header_text L header (snd (common_loop L private [] None typs))
                      (map (wrap L) typs) @ pretty L src"
    by blast
  have "\<forall>t\<in>set (map (wrap L) typs).
                \<forall>f\<in>set (iface_funcs (snd (common_loop L private [] None typs))).
                  \<exists>m\<in>set (NewMethodSet L t).
                    obj_Name (sel_Obj m) = fst f \<and> Identical L (snd f) (sel_Type m)"
  proof (intro ballI)
    fix t f
    assume "t \<in> set (map (wrap L) typs)"
      and "f \<in> set (iface_funcs (snd (common_loop L private [] None typs)))"
    then obtain u kv where u: "u \<in> set typs" "t = wrap L u"
      and kv: "kv \<in> set (entries (snd (common_loop L private [] None typs)))"
        "f = (fst kv, Signature (snd kv))"
      by (auto simp: iface_funcs_def)
    from common_contained [OF kv(1) u(1) assms(2)] u(2) kv(2)
    show "\<exists>m\<in>set (NewMethodSet L t).
                    obj_Name (sel_Obj m) = fst f \<and> Identical L (snd f) (sel_Type m)"
      by simp
  qed
  with d show ?thesis by blast
qed

lemma ex_parse_AB:
  "parse_args [''ex.A'', ''ex.B''] = Inr [\<lparr>pkg = ''ex'', typ = ''A''\<rparr>, \<lparr>pkg = ''ex'', typ = ''B''\<rparr>]"
  by (simp add: parse_arg_def LastIndexByte_def)

lemma ex_lookup_AB:
  "lookup_types ex_prog [\<lparr>pkg = ''ex'', typ = ''A''\<rparr>, \<lparr>pkg = ''ex'', typ = ''B''\<rparr>]
     = Inr [Named ''ex'' ''A'', Named ''ex'' ''B'']"
  by (simp add: ex_prog_def ex_scope_def ex_typename_def)

lemma ex_render_AB:
  "render_buf ex_lib ex_prog False
       (snd (common_loop ex_lib False [] None [Named ''ex'' ''A'', Named ''ex'' ''B'']))
     = Inr (''package common;type T interface{'' @ [CHR 0x0A]
            @ [CHR 0x09] @ ''Close() error'' @ [CHR 0x0A]
            @ [CHR 0x09] @ ''Read(b []byte) (n int, err error)'' @ [CHR 0x0A]
            @ ''}'' @ [CHR 0x0A])"
  unfolding render_buf_def sorted_names_def
  by (simp only: ex_common_AB entries_def option.case)
     (simp add: doc_comment_def method_line_def TrimPrefix_def ex_lib_def)

lemma ex_pretty_AB:
  "pretty ex_lib (''package common;type T interface{'' @ [CHR 0x0A]
            @ [CHR 0x09] @ ''Close() error'' @ [CHR 0x0A]
            @ [CHR 0x09] @ ''Read(b []byte) (n int, err error)'' @ [CHR 0x0A]
            @ ''}'' @ [CHR 0x0A])
     = ''interface {'' @ [CHR 0x0A]
            @ [CHR 0x09] @ ''Close() error'' @ [CHR 0x0A]
            @ [CHR 0x09] @ ''Read(b []byte) (n int, err error)'' @ [CHR 0x0A]
            @ ''}'' @ [CHR 0x0A]"
  by (simp add: pretty_def ex_lib_def ex_format_def Let_def)

lemma ex_main_AB:
  "main ex_lib False False False [''ex.A'', ''ex.B'']
     = Inr (''interface {'' @ [CHR 0x0A]
            @ [CHR 0x09] @ ''Close() error'' @ [CHR 0x0A]
            @ [CHR 0x09] @ ''Read(b []byte) (n int, err error)'' @ [CHR 0x0A]
            @ ''}'' @ [CHR 0x0A])"
proof -
  have l: "conf_Load ex_lib False [pkg \<lparr>pkg = ''ex'', typ = ''A''\<rparr>, pkg \<lparr>pkg = ''ex'', typ = ''B''\<rparr>]
             = Inr ex_prog"
    by (simp add: ex_lib_def)
  show ?thesis
    unfolding main_def
    by (simp only: ex_parse_AB l ex_lookup_AB Let_def ex_render_AB ex_pretty_AB header_text_def
          sum.case list.simps if_False append_Nil)
qed

theorem types_implement_printed_interface_witness:
  "main ex_lib False False False [''ex.A'', ''ex.B'']
     = Inr (''interface {'' @ [CHR 0x0A]
            @ [CHR 0x09] @ ''Close() error'' @ [CHR 0x0A]
            @ [CHR 0x09] @ ''Read(b []byte) (n int, err error)'' @ [CHR 0x0A]
            @ ''}'' @ [CHR 0x0A])
   \<and> (\<forall>s. Identical ex_lib s s)
   \<and> (\<exists>argTypes prog typs src.
           parse_args [''ex.A'', ''ex.B''] = Inr argTypes
           \<and> conf_Load ex_lib False (map pkg argTypes) = Inr prog
           \<and> lookup_types prog argTypes = Inr typs
           \<and> render_buf ex_lib prog False (snd (common_loop ex_lib False [] None typs)) = Inr src
           \<and> ''interface {'' @ [CHR 0x0A]
            @ [CHR 0x09] @ ''Close() error'' @ [CHR 0x0A]
            @ [CHR 0x09] @ ''Read(b []byte) (n int, err error)'' @ [CHR 0x0A]
            @ ''}'' @ [CHR 0x0A]
               = header_text ex_lib False (snd (common_loop ex_lib False [] None typs))
                      (map (wrap ex_lib) typs) @ pretty ex_lib src
           \<and> (\<forall>t\<in>set (map (wrap ex_lib) typs).
                \<forall>f\<in>set (iface_funcs (snd (common_loop ex_lib False [] None typs))).
                  \<exists>m\<in>set (NewMethodSet ex_lib t).
                    obj_Name (sel_Obj m) = fst f \<and> Identical ex_lib (snd f) (sel_Type m)))"
proof -
  have r: "\<forall>s. Identical ex_lib s s" by (simp add: ex_lib_def)
  from ex_main_AB r types_implement_printed_interface [OF ex_main_AB r]
  show ?thesis by (intro conjI)
qed

subsection \<open>Failed lookups\<close>

lemma lookup_types_first_bad:
  assumes pre: "\<forall>b\<in>set pre. \<exists>scope ob p n.
                   Imported prog (pkg b) = Some scope \<and> scope (typ b) = Some ob
                   \<and> obj_Type ob = Named p n"
    and a: "Imported prog (pkg a) = Some scope"
  shows "scope (typ a) = None \<Longrightarrow>
           lookup_types prog (pre @ a # post) = Inl (LookupFailed (pkg a @ ''.'' @ typ a))"
    and "scope (typ a) = Some ob \<Longrightarrow> \<forall>p n. obj_Type ob \<noteq> Named p n \<Longrightarrow>
           lookup_types prog (pre @ a # post) = Inl (NotDeclaredType ob (obj_Type ob))"
proof -
  have step: "\<And>e. lookup_types prog (a # post) = Inl e \<Longrightarrow> lookup_types prog (pre @ a # post) = Inl e"
    using pre
  proof (induction pre)
    case Nil
    then show ?case by simp
  next
    case (Cons b pre)
    from Cons.prems(2) obtain sc ob' p n where
      "Imported prog (pkg b) = Some sc" "sc (typ b) = Some ob'" "obj_Type ob' = Named p n"
      by auto
    moreover have "lookup_types prog (pre @ a # post) = Inl e"
      using Cons by simp
    ultimately show ?case by simp
  qed
  show "scope (typ a) = None \<Longrightarrow>
           lookup_types prog (pre @ a # post) = Inl (LookupFailed (pkg a @ ''.'' @ typ a))"
    using a by (intro step) simp
  show "scope (typ a) = Some ob \<Longrightarrow> \<forall>p n. obj_Type ob \<noteq> Named p n \<Longrightarrow>
           lookup_types prog (pre @ a # post) = Inl (NotDeclaredType ob (obj_Type ob))"
    using a by (intro step) (cases "obj_Type ob"; simp)
qed

lemma lookup_types_some_bad:
  assumes "\<forall>a\<in>set as. Imported prog (pkg a) \<noteq> None"
    and "\<exists>a\<in>set as. \<exists>scope. Imported prog (pkg a) = Some scope \<and>
           (scope (typ a) = None \<or>
            (\<exists>ob. scope (typ a) = Some ob \<and> (\<forall>p n. obj_Type ob \<noteq> Named p n)))"
  shows "\<exists>e. lookup_types prog as = Inl e \<and>
           ((\<exists>n. e = LookupFailed n) \<or> (\<exists>ob t. e = NotDeclaredType ob t))"
  using assms
proof (induction as)
  case Nil
  then show ?case by simp
next
  case (Cons b as)
  from Cons.prems(1) obtain sc where sc: "Imported prog (pkg b) = Some sc" by auto
  show ?case
  proof (cases "sc (typ b)")
    case None
    with sc show ?thesis by simp
  next
    case (Some ob)
    show ?thesis
    proof (cases "obj_Type ob")
      case (Named p n)
      with sc Some Cons.prems(2) have "\<exists>a\<in>set as. \<exists>scope. Imported prog (pkg a) = Some scope \<and>
           (scope (typ a) = None \<or>
            (\<exists>ob. scope (typ a) = Some ob \<and> (\<forall>p n. obj_Type ob \<noteq> Named p n)))"
        by auto
      with Cons.IH Cons.prems(1) obtain e where "lookup_types prog as = Inl e"
        "(\<exists>n. e = LookupFailed n) \<or> (\<exists>ob t. e = NotDeclaredType ob t)" by auto
      with sc Some Named show ?thesis by simp
    next
      case (Pointer t)
      with sc Some show ?thesis by simp
    next
      case (Other s)
      with sc Some show ?thesis by simp
    qed
  qed
qed

lemma main_load_error:
  "args \<noteq> [] \<Longrightarrow> parse_args args = Inr argTypes \<Longrightarrow>
     conf_Load L comments (map pkg argTypes) = Inl err \<Longrightarrow>
     main L comments header private args = Inl (LoadError err)"
  by (simp add: main_def)

lemma main_lookup_error:
  "args \<noteq> [] \<Longrightarrow> parse_args args = Inr argTypes \<Longrightarrow>
     conf_Load L comments (map pkg argTypes) = Inr prog \<Longrightarrow>
     lookup_types prog argTypes = Inl e \<Longrightarrow>
     main L comments header private args = Inl e"
  by (simp add: main_def)

text \<open>
  After the arguments were split: when loading the packages fails, \<open>main\<close> ends with
  the \<open>Error loading packages\<close> message. When the packages are loaded and a pair, whose
  predecessors all name declared types, has a name that is not in the package's scope,
  \<open>main\<close> ends with the \<open>Lookup of ... failed\<close> message for that pair; when its name is
  found but the type of the object is not a \<open>*types.Named\<close>, \<open>main\<close> ends with the
  \<open>is not a declared type\<close> message for that object. When every package of the pairs
  is among the imported ones and some pair is of one of these two kinds, \<open>main\<close> ends
  with one of the two messages. A run that ends so prints nothing: the result is not an
  output text.
\<close>

lemma lookup_failures_are_fatal:
  assumes "args \<noteq> []" and "parse_args args = Inr argTypes"
  shows
  "(conf_Load L comments (map pkg argTypes) = Inl err \<longrightarrow>
      main L comments header private args = Inl (LoadError err)
      \<and> fatal_format (LoadError err) = ''Error loading packages: %v'')
   \<and> (conf_Load L comments (map pkg argTypes) = Inr prog \<longrightarrow>
      (\<forall>pre a post scope. argTypes = pre @ a # post
          \<and> (\<forall>b\<in>set pre. \<exists>scope ob p n. Imported prog (pkg b) = Some scope
                 \<and> scope (typ b) = Some ob \<and> obj_Type ob = Named p n)
          \<and> Imported prog (pkg a) = Some scope \<longrightarrow>
          (scope (typ a) = None \<longrightarrow>
             main L comments header private args = Inl (LookupFailed (pkg a @ ''.'' @ typ a)))
          \<and> (\<forall>ob. scope (typ a) = Some ob \<and> (\<forall>p n. obj_Type ob \<noteq> Named p n) \<longrightarrow>
                main L comments header private args = Inl (NotDeclaredType ob (obj_Type ob))))
      \<and> ((\<forall>a\<in>set argTypes. Imported prog (pkg a) \<noteq> None)
          \<and> (\<exists>a\<in>set argTypes. \<exists>scope. Imported prog (pkg a) = Some scope \<and>
                (scope (typ a) = None \<or>
                 (\<exists>ob. scope (typ a) = Some ob \<and> (\<forall>p n. obj_Type ob \<noteq> Named p n)))) \<longrightarrow>
          (\<exists>e. main L comments header private args = Inl e
              \<and> ((\<exists>n. e = LookupFailed n) \<or> (\<exists>ob t. e = NotDeclaredType ob t))
              \<and> fatal_format e \<noteq> []
              \<and> (\<forall>out. main L comments header private args \<noteq> Inr out))))"
proof (intro conjI impI allI)
  assume "conf_Load L comments (map pkg argTypes) = Inl err"
  with assms show "main L comments header private args = Inl (LoadError err)"
    by (rule main_load_error)
  show "fatal_format (LoadError err) = ''Error loading packages: %v''" by simp
next
  fix pre a post scope
  assume l: "conf_Load L comments (map pkg argTypes) = Inr prog"
    and h: "argTypes = pre @ a # post
          \<and> (\<forall>b\<in>set pre. \<exists>scope ob p n. Imported prog (pkg b) = Some scope
                 \<and> scope (typ b) = Some ob \<and> obj_Type ob = Named p n)
          \<and> Imported prog (pkg a) = Some scope"
  from h have eq: "argTypes = pre @ a # post"
    and pre: "\<forall>b\<in>set pre. \<exists>scope ob p n. Imported prog (pkg b) = Some scope
                 \<and> scope (typ b) = Some ob \<and> obj_Type ob = Named p n"
    and a: "Imported prog (pkg a) = Some scope" by blast+
  {
    assume "scope (typ a) = None"
    from lookup_types_first_bad(1) [OF pre a this, of post]
    show "main L comments header private args = Inl (LookupFailed (pkg a @ ''.'' @ typ a))"
      using assms l eq by (intro main_lookup_error) simp_all
  }
  {
    fix ob assume "scope (typ a) = Some ob \<and> (\<forall>p n. obj_Type ob \<noteq> Named p n)"
    then have "scope (typ a) = Some ob" "\<forall>p n. obj_Type ob \<noteq> Named p n" by blast+
    from lookup_types_first_bad(2) [OF pre a this, of post]
    show "main L comments header private args = Inl (NotDeclaredType ob (obj_Type ob))"
      using assms l eq by (intro main_lookup_error) simp_all
  }
next
  assume l: "conf_Load L comments (map pkg argTypes) = Inr prog"
    and h: "(\<forall>a\<in>set argTypes. Imported prog (pkg a) \<noteq> None)
          \<and> (\<exists>a\<in>set argTypes. \<exists>scope. Imported prog (pkg a) = Some scope \<and>
                (scope (typ a) = None \<or>
                 (\<exists>ob. scope (typ a) = Some ob \<and> (\<forall>p n. obj_Type ob \<noteq> Named p n))))"
  from h have h1: "\<forall>a\<in>set argTypes. Imported prog (pkg a) \<noteq> None"
    and h2: "\<exists>a\<in>set argTypes. \<exists>scope. Imported prog (pkg a) = Some scope \<and>
                (scope (typ a) = None \<or>
                 (\<exists>ob. scope (typ a) = Some ob \<and> (\<forall>p n. obj_Type ob \<noteq> Named p n)))"
    by blast+
  from lookup_types_some_bad [OF h1 h2] obtain e where
    e: "lookup_types prog argTypes = Inl e"
       "(\<exists>n. e = LookupFailed n) \<or> (\<exists>ob t. e = NotDeclaredType ob t)" by blast
  from assms l e(1) have m: "main L comments header private args = Inl e"
    by (rule main_lookup_error)
  from e(2) have f: "fatal_format e \<noteq> []" by auto
  from m e(2) f
  show "\<exists>e. main L comments header private args = Inl e
              \<and> ((\<exists>n. e = LookupFailed n) \<or> (\<exists>ob t. e = NotDeclaredType ob t))
              \<and> fatal_format e \<noteq> []
              \<and> (\<forall>out. main L comments header private args \<noteq> Inr out)"
    by auto
qed


lemma lookup_failures_are_fatal_example:
  "main ex_lib False False False [''ex.A'', ''ex.Z''] = Inl (LookupFailed ''ex.Z'')
   \<and> main ex_lib False False False [''ex.A'', ''ex.V'']
       = Inl (NotDeclaredType \<lparr>obj_Name = ''V'', obj_Type = Other ''int'', obj_Pos = 5, obj_Kind = Var\<rparr> (Other ''int''))
   \<and> main ex_lib False False False [''fx.A''] = Inl (LoadError ''cannot find package'')"
proof -
  let ?A = "\<lparr>pkg = ''ex'', typ = ''A''\<rparr>"
  let ?Z = "\<lparr>pkg = ''ex'', typ = ''Z''\<rparr>"
  let ?V = "\<lparr>pkg = ''ex'', typ = ''V''\<rparr>"
  let ?F = "\<lparr>pkg = ''fx'', typ = ''A''\<rparr>"
  have pz: "parse_args [''ex.A'', ''ex.Z''] = Inr [?A, ?Z]"
    and pv: "parse_args [''ex.A'', ''ex.V''] = Inr [?A, ?V]"
    and pf: "parse_args [''fx.A''] = Inr [?F]"
    by (simp_all add: parse_arg_def LastIndexByte_def)
  have lz: "conf_Load ex_lib False (map pkg [?A, ?Z]) = Inr ex_prog"
    and lv: "conf_Load ex_lib False (map pkg [?A, ?V]) = Inr ex_prog"
    and lf: "conf_Load ex_lib False (map pkg [?F]) = Inl ''cannot find package''"
    by (simp_all add: ex_lib_def)
  have pre: "\<forall>b\<in>set [?A]. \<exists>scope ob p n. Imported ex_prog (pkg b) = Some scope
                 \<and> scope (typ b) = Some ob \<and> obj_Type ob = Named p n"
    by (simp add: ex_prog_def ex_scope_def ex_typename_def)
  have im: "Imported ex_prog (pkg ?Z) = Some ex_scope" "Imported ex_prog (pkg ?V) = Some ex_scope"
    by (simp_all add: ex_prog_def)
  have z: "ex_scope (typ ?Z) = None" by (simp add: ex_scope_def)
  have v: "ex_scope (typ ?V) = Some \<lparr>obj_Name = ''V'', obj_Type = Other ''int'', obj_Pos = 5, obj_Kind = Var\<rparr>
             \<and> (\<forall>p n. obj_Type \<lparr>obj_Name = ''V'', obj_Type = Other ''int'', obj_Pos = 5, obj_Kind = Var\<rparr> \<noteq> Named p n)"
    by (simp add: ex_scope_def)
  have ne: "[''ex.A'', ''ex.Z''] \<noteq> []" "[''ex.A'', ''ex.V''] \<noteq> []" "[''fx.A''] \<noteq> []" by simp_all
  have dz: "[?A, ?Z] = [?A] @ ?Z # [] \<and> (\<forall>b\<in>set [?A]. \<exists>scope ob p n. Imported ex_prog (pkg b) = Some scope
                 \<and> scope (typ b) = Some ob \<and> obj_Type ob = Named p n)
                 \<and> Imported ex_prog (pkg ?Z) = Some ex_scope"
    using pre im by simp
  have dv: "[?A, ?V] = [?A] @ ?V # [] \<and> (\<forall>b\<in>set [?A]. \<exists>scope ob p n. Imported ex_prog (pkg b) = Some scope
                 \<and> scope (typ b) = Some ob \<and> obj_Type ob = Named p n)
                 \<and> Imported ex_prog (pkg ?V) = Some ex_scope"
    using pre im by simp
  note tz = lookup_failures_are_fatal [OF ne(1) pz, of ex_lib False _ False False ex_prog,
      THEN conjunct2, THEN mp, OF lz, THEN conjunct1, THEN spec, THEN spec, THEN spec, THEN spec,
      THEN mp, OF dz, THEN conjunct1, THEN mp, OF z]
  note tv = lookup_failures_are_fatal [OF ne(2) pv, of ex_lib False _ False False ex_prog,
      THEN conjunct2, THEN mp, OF lv, THEN conjunct1, THEN spec, THEN spec, THEN spec, THEN spec,
      THEN mp, OF dv, THEN conjunct2, THEN spec, THEN mp, OF v]
  note tf = lookup_failures_are_fatal [OF ne(3) pf, of ex_lib False "''cannot find package''" False False,
      THEN conjunct1, THEN mp, OF lf, THEN conjunct1]
  have 1: "main ex_lib False False False [''ex.A'', ''ex.Z''] = Inl (LookupFailed ''ex.Z'')"
    using tz by simp
  have 2: "main ex_lib False False False [''ex.A'', ''ex.V'']
       = Inl (NotDeclaredType \<lparr>obj_Name = ''V'', obj_Type = Other ''int'', obj_Pos = 5, obj_Kind = Var\<rparr> (Other ''int''))"
    using tv by simp
  from 1 2 tf show ?thesis by (intro conjI)
qed

lemma ex_common_A:
  "snd (common_loop ex_lib False [] None [Named ''ex'' ''A'']) =
     Some (sigs_of ex_lib False (wrap ex_lib (Named ''ex'' ''A'')))"
  by (simp add: Let_def)

lemma ex_render_A:
  "render_buf ex_lib ex_prog False (snd (common_loop ex_lib False [] None [Named ''ex'' ''A'']))
     = Inr (''package common;type T interface{'' @ [CHR 0x0A]
            @ [CHR 0x09] @ ''Close() error'' @ [CHR 0x0A]
            @ [CHR 0x09] @ ''Read(b []byte) (n int, err error)'' @ [CHR 0x0A]
            @ [CHR 0x09] @ ''Size() int'' @ [CHR 0x0A]
            @ ''}'' @ [CHR 0x0A])"
  unfolding render_buf_def sorted_names_def
  by (simp only: ex_common_A ex_sigs_A entries_def option.case)
     (simp add: doc_comment_def method_line_def TrimPrefix_def ex_lib_def)

lemma ex_pretty_A:
  "pretty ex_lib (''package common;type T interface{'' @ [CHR 0x0A]
            @ [CHR 0x09] @ ''Close() error'' @ [CHR 0x0A]
            @ [CHR 0x09] @ ''Read(b []byte) (n int, err error)'' @ [CHR 0x0A]
            @ [CHR 0x09] @ ''Size() int'' @ [CHR 0x0A]
            @ ''}'' @ [CHR 0x0A])
     = ''interface {'' @ [CHR 0x0A]
            @ [CHR 0x09] @ ''Close() error'' @ [CHR 0x0A]
            @ [CHR 0x09] @ ''Read(b []byte) (n int, err error)'' @ [CHR 0x0A]
            @ [CHR 0x09] @ ''Size() int'' @ [CHR 0x0A]
            @ ''}'' @ [CHR 0x0A]"
  by (simp add: pretty_def ex_lib_def ex_format_def Let_def)

lemma ex_main_of_A:
  assumes "parse_args [arg] = Inr [a]" and "pkg a = ''ex''"
    and "lookup_types ex_prog [a] = Inr [Named ''ex'' ''A'']"
  shows "main ex_lib False False False [arg]
     = Inr (''interface {'' @ [CHR 0x0A]
            @ [CHR 0x09] @ ''Close() error'' @ [CHR 0x0A]
            @ [CHR 0x09] @ ''Read(b []byte) (n int, err error)'' @ [CHR 0x0A]
            @ [CHR 0x09] @ ''Size() int'' @ [CHR 0x0A]
            @ ''}'' @ [CHR 0x0A])"
proof -
  have l: "conf_Load ex_lib False [pkg a] = Inr ex_prog"
    using assms(2) by (simp add: ex_lib_def)
  show ?thesis
    unfolding main_def
    by (simp only: assms(1) l assms(3) Let_def ex_render_A ex_pretty_A header_text_def
          sum.case list.simps if_False append_Nil)
qed

text \<open>
  C6 fails for a name that resolves to an object that is not a declared type but whose
  type is one. Line 98 tests the type of the object only, so for the variable \<open>ex.E\<close>,
  of the named type \<open>ex.A\<close>, no \<open>is not a declared type\<close> message is given: \<open>main\<close>
  succeeds and prints the interface of \<open>ex.A\<close>, as it does for the argument \<open>ex.A\<close>.
\<close>

theorem variable_of_named_type_is_accepted:
  "ex_scope ''E''
     = Some \<lparr>obj_Name = ''E'', obj_Type = Named ''ex'' ''A'', obj_Pos = 6, obj_Kind = Var\<rparr>
   \<and> main ex_lib False False False [''ex.E'']
     = Inr (''interface {'' @ [CHR 0x0A]
            @ [CHR 0x09] @ ''Close() error'' @ [CHR 0x0A]
            @ [CHR 0x09] @ ''Read(b []byte) (n int, err error)'' @ [CHR 0x0A]
            @ [CHR 0x09] @ ''Size() int'' @ [CHR 0x0A]
            @ ''}'' @ [CHR 0x0A])
   \<and> main ex_lib False False False [''ex.E''] = main ex_lib False False False [''ex.A'']"
proof -
  have pe: "parse_args [''ex.E''] = Inr [\<lparr>pkg = ''ex'', typ = ''E''\<rparr>]"
    and pa: "parse_args [''ex.A''] = Inr [\<lparr>pkg = ''ex'', typ = ''A''\<rparr>]"
    by (simp_all add: parse_arg_def LastIndexByte_def)
  have s: "ex_scope ''E''
     = Some \<lparr>obj_Name = ''E'', obj_Type = Named ''ex'' ''A'', obj_Pos = 6, obj_Kind = Var\<rparr>"
    by (simp add: ex_scope_def)
  have le: "lookup_types ex_prog [\<lparr>pkg = ''ex'', typ = ''E''\<rparr>] = Inr [Named ''ex'' ''A'']"
    and la: "lookup_types ex_prog [\<lparr>pkg = ''ex'', typ = ''A''\<rparr>] = Inr [Named ''ex'' ''A'']"
    by (simp_all add: ex_prog_def ex_scope_def ex_typename_def)
  have e: "main ex_lib False False False [''ex.E'']
     = Inr (''interface {'' @ [CHR 0x0A]
            @ [CHR 0x09] @ ''Close() error'' @ [CHR 0x0A]
            @ [CHR 0x09] @ ''Read(b []byte) (n int, err error)'' @ [CHR 0x0A]
            @ [CHR 0x09] @ ''Size() int'' @ [CHR 0x0A]
            @ ''}'' @ [CHR 0x0A])"
    using pe _ le by (rule ex_main_of_A) simp
  have a: "main ex_lib False False False [''ex.A'']
     = Inr (''interface {'' @ [CHR 0x0A]
            @ [CHR 0x09] @ ''Close() error'' @ [CHR 0x0A]
            @ [CHR 0x09] @ ''Read(b []byte) (n int, err error)'' @ [CHR 0x0A]
            @ [CHR 0x09] @ ''Size() int'' @ [CHR 0x0A]
            @ ''}'' @ [CHR 0x0A])"
    using pa _ la by (rule ex_main_of_A) simp
  from s e a show ?thesis by (simp only: simp_thms)
qed

subsection \<open>The header\<close>

lemma lookup_types_Named:
  "lookup_types prog as = Inr typs \<Longrightarrow> \<forall>t\<in>set typs. \<exists>p n. t = Named p n"
  by (induction as arbitrary: typs) (auto split: option.splits gotype.splits sum.splits)

lemma parse_args_all2:
  "parse_args args = Inr as \<Longrightarrow> list_all2 (\<lambda>arg a. parse_arg arg = Inr a) args as"
  by (induction args arbitrary: as) (auto split: sum.splits)

lemma lookup_types_all2:
  "lookup_types prog as = Inr typs \<Longrightarrow>
     list_all2 (\<lambda>a t. \<exists>scope ob. Imported prog (pkg a) = Some scope
                  \<and> scope (typ a) = Some ob \<and> obj_Type ob = t) as typs"
  by (induction as arbitrary: typs) (auto split: option.splits gotype.splits sum.splits)

lemma args_types_all2:
  "parse_args args = Inr as \<Longrightarrow> lookup_types prog as = Inr typs \<Longrightarrow>
     list_all2 (\<lambda>arg t. \<exists>a scope ob. parse_arg arg = Inr a
                  \<and> Imported prog (pkg a) = Some scope
                  \<and> scope (typ a) = Some ob \<and> obj_Type ob = t) args typs"
proof (induction args arbitrary: as typs)
  case Nil
  then show ?case by simp
next
  case (Cons arg args)
  from Cons.prems(1) obtain a as' where a: "parse_arg arg = Inr a"
    and as': "parse_args args = Inr as'" and as: "as = a # as'"
    by (auto split: sum.splits)
  from Cons.prems(2) as obtain scope ob p n typs' where
    l: "Imported prog (pkg a) = Some scope" "scope (typ a) = Some ob" "obj_Type ob = Named p n"
    and t': "lookup_types prog as' = Inr typs'" and t: "typs = Named p n # typs'"
    by (auto split: option.splits gotype.splits sum.splits)
  from Cons.IH [OF as' t'] a l t show ?case by auto
qed

lemma header_type_wrap_Named:
  "header_type L iface (wrap L (Named p n)) =
     (if IsInterface L (Named p n) then Named p n
      else if Implements L (Named p n) iface then Named p n
      else Pointer (Named p n))"
  by (simp add: wrap_def)

text \<open>
  C7. On a successful run the output is the header followed by the interface text. With
  the \<open>header\<close> flag the header is the line \<open>// Common interface of\<close> and then one line
  \<open>// T\<close> for each resolved type, in the order of the arguments (the i-th type is the
  type of the object the i-th argument names). For a type that was wrapped in a
  pointer, \<open>T\<close> is the type itself when it implements the interface built from the
  common map, otherwise the pointer type; an interface type is printed as it is. Without
  the flag there is no header.
\<close>

theorem header_lists_types_in_order:
  assumes "main L comments header private args = Inr out"
  shows "\<exists>argTypes prog typs src.
           parse_args args = Inr argTypes
           \<and> conf_Load L comments (map pkg argTypes) = Inr prog
           \<and> lookup_types prog argTypes = Inr typs
           \<and> length typs = length args
           \<and> list_all2 (\<lambda>arg t. \<exists>a scope ob. parse_arg arg = Inr a
                  \<and> Imported prog (pkg a) = Some scope
                  \<and> scope (typ a) = Some ob \<and> obj_Type ob = t) args typs
           \<and> render_buf L prog comments (snd (common_loop L private [] None typs)) = Inr src
           \<and> out = (if header then
                       ''// Common interface of'' @ [CHR 0x0A]
                         @ concat (map (\<lambda>t. ''// '' @ Type_String L
                              (if IsInterface L t then t
                               else if Implements L t
                                    (iface_funcs (snd (common_loop L private [] None typs)))
                               then t else Pointer t) @ [CHR 0x0A]) typs)
                     else [])
                    @ pretty L src"
proof -
  from main_Inr [OF assms] obtain argTypes prog typs src where
    d: "parse_args args = Inr argTypes" "conf_Load L comments (map pkg argTypes) = Inr prog"
       "lookup_types prog argTypes = Inr typs" "length typs = length args"
       "render_buf L prog comments (snd (common_loop L private [] None typs)) = Inr src"
       "out = header_text L header (snd (common_loop L private [] None typs))
                      (map (wrap L) typs) @ pretty L src"
    by blast
  let ?iface = "iface_funcs (snd (common_loop L private [] None typs))"
  have lines: "map (header_line L ?iface) (map (wrap L) typs)
      = map (\<lambda>t. ''// '' @ Type_String L
                 (if IsInterface L t then t
                  else if Implements L t ?iface then t else Pointer t) @ [CHR 0x0A]) typs"
    unfolding map_map
  proof (rule map_cong [OF refl])
    fix t assume "t \<in> set typs"
    with lookup_types_Named [OF d(3)] obtain p n where "t = Named p n" by blast
    then show "(header_line L ?iface \<circ> wrap L) t
      = ''// '' @ Type_String L
                 (if IsInterface L t then t
                  else if Implements L t ?iface then t else Pointer t) @ [CHR 0x0A]"
      by (simp only: comp_apply header_line_def header_type_wrap_Named)
  qed
  have all2: "list_all2 (\<lambda>arg t. \<exists>a scope ob. parse_arg arg = Inr a
                  \<and> Imported prog (pkg a) = Some scope
                  \<and> scope (typ a) = Some ob \<and> obj_Type ob = t) args typs"
    using d(1) d(3) by (rule args_types_all2)
  have out: "out = (if header then
                       ''// Common interface of'' @ [CHR 0x0A]
                         @ concat (map (\<lambda>t. ''// '' @ Type_String L
                              (if IsInterface L t then t
                               else if Implements L t ?iface then t else Pointer t)
                              @ [CHR 0x0A]) typs)
                     else [])
                    @ pretty L src"
    by (simp only: d(6) header_text_def lines)
  show ?thesis
    apply (rule exI [of _ argTypes])
    apply (rule exI [of _ prog])
    apply (rule exI [of _ typs])
    apply (rule exI [of _ src])
    apply (intro conjI)
          apply (rule d(1))
         apply (rule d(2))
        apply (rule d(3))
       apply (rule d(4))
      apply (rule all2)
     apply (rule d(5))
    apply (rule out)
    done
qed


lemma ex_sigs_C:
  "sigs_of ex_lib False (wrap ex_lib (Named ''ex'' ''C'')) =
     [(''Close'', \<lparr>Signature = (''func() error'', ''func() error''),
                  Obj = \<lparr>obj_Name = ''Close'', obj_Type = Other ''func() error'', obj_Pos = 30, obj_Kind = Func\<rparr>\<rparr>),
      (''Read'', \<lparr>Signature = (''func([]byte) (int, error)'', ''func(q []byte) (int, error)''),
                 Obj = \<lparr>obj_Name = ''Read'', obj_Type = Other ''func(q []byte) (int, error)'',
                        obj_Pos = 31, obj_Kind = Func\<rparr>\<rparr>)]"
  by (simp add: ex_eval)

lemma ex_sigs_I:
  "sigs_of ex_lib False (wrap ex_lib (Named ''ex'' ''I'')) =
     [(''Close'', \<lparr>Signature = (''func() error'', ''func() error''),
                  Obj = \<lparr>obj_Name = ''Close'', obj_Type = Other ''func() error'', obj_Pos = 40, obj_Kind = Func\<rparr>\<rparr>),
      (''Read'', \<lparr>Signature = (''func([]byte) (int, error)'', ''func(p []byte) (n int, err error)''),
                 Obj = \<lparr>obj_Name = ''Read'', obj_Type = Other ''func(p []byte) (n int, err error)'',
                        obj_Pos = 41, obj_Kind = Func\<rparr>\<rparr>)]"
  by (simp add: ex_eval)

lemma ex_common_CIA:
  "snd (common_loop ex_lib False [] None [Named ''ex'' ''C'', Named ''ex'' ''I'', Named ''ex'' ''A'']) =
     Some [(''Close'', \<lparr>Signature = (''func() error'', ''func() error''),
                  Obj = \<lparr>obj_Name = ''Close'', obj_Type = Other ''func() error'', obj_Pos = 30, obj_Kind = Func\<rparr>\<rparr>),
      (''Read'', \<lparr>Signature = (''func([]byte) (int, error)'', ''func(q []byte) (int, error)''),
                 Obj = \<lparr>obj_Name = ''Read'', obj_Type = Other ''func(q []byte) (int, error)'',
                        obj_Pos = 31, obj_Kind = Func\<rparr>\<rparr>)]"
  by (simp add: Let_def ex_sigs_A ex_sigs_C ex_sigs_I remove_missing_def deleted_def)
     (simp add: ex_lib_def)

lemma ex_parse_CIA:
  "parse_args [''ex.C'', ''ex.I'', ''ex.A'']
     = Inr [\<lparr>pkg = ''ex'', typ = ''C''\<rparr>, \<lparr>pkg = ''ex'', typ = ''I''\<rparr>, \<lparr>pkg = ''ex'', typ = ''A''\<rparr>]"
  by (simp add: parse_arg_def LastIndexByte_def)

lemma ex_lookup_CIA:
  "lookup_types ex_prog
       [\<lparr>pkg = ''ex'', typ = ''C''\<rparr>, \<lparr>pkg = ''ex'', typ = ''I''\<rparr>, \<lparr>pkg = ''ex'', typ = ''A''\<rparr>]
     = Inr [Named ''ex'' ''C'', Named ''ex'' ''I'', Named ''ex'' ''A'']"
  by (simp add: ex_prog_def ex_scope_def ex_typename_def)

lemma ex_render_CIA:
  "render_buf ex_lib ex_prog False
       (snd (common_loop ex_lib False [] None
               [Named ''ex'' ''C'', Named ''ex'' ''I'', Named ''ex'' ''A'']))
     = Inr (''package common;type T interface{'' @ [CHR 0x0A]
            @ [CHR 0x09] @ ''Close() error'' @ [CHR 0x0A]
            @ [CHR 0x09] @ ''Read(q []byte) (int, error)'' @ [CHR 0x0A]
            @ ''}'' @ [CHR 0x0A])"
  unfolding render_buf_def sorted_names_def
  by (simp only: ex_common_CIA entries_def option.case)
     (simp add: doc_comment_def method_line_def TrimPrefix_def ex_lib_def)

lemma ex_pretty_CIA:
  "pretty ex_lib (''package common;type T interface{'' @ [CHR 0x0A]
            @ [CHR 0x09] @ ''Close() error'' @ [CHR 0x0A]
            @ [CHR 0x09] @ ''Read(q []byte) (int, error)'' @ [CHR 0x0A]
            @ ''}'' @ [CHR 0x0A])
     = ''interface {'' @ [CHR 0x0A]
            @ [CHR 0x09] @ ''Close() error'' @ [CHR 0x0A]
            @ [CHR 0x09] @ ''Read(q []byte) (int, error)'' @ [CHR 0x0A]
            @ ''}'' @ [CHR 0x0A]"
  by (simp add: pretty_def ex_lib_def ex_format_def Let_def)

lemma ex_header_CIA:
  "header_text ex_lib True
       (snd (common_loop ex_lib False [] None
               [Named ''ex'' ''C'', Named ''ex'' ''I'', Named ''ex'' ''A'']))
       (fst (common_loop ex_lib False [] None
               [Named ''ex'' ''C'', Named ''ex'' ''I'', Named ''ex'' ''A'']))
     = ''// Common interface of'' @ [CHR 0x0A] @ ''// ex.C'' @ [CHR 0x0A]
         @ ''// ex.I'' @ [CHR 0x0A] @ ''// *ex.A'' @ [CHR 0x0A]"
  unfolding header_text_def iface_funcs_def common_loop_fst
  by (simp only: ex_common_CIA entries_def option.case)
     (simp add: header_line_def wrap_def ex_lib_def ex_Implements_def ex_method_def)

lemma ex_main_CIA:
  "main ex_lib False True False [''ex.C'', ''ex.I'', ''ex.A'']
     = Inr (''// Common interface of'' @ [CHR 0x0A] @ ''// ex.C'' @ [CHR 0x0A]
            @ ''// ex.I'' @ [CHR 0x0A] @ ''// *ex.A'' @ [CHR 0x0A]
            @ ''interface {'' @ [CHR 0x0A]
            @ [CHR 0x09] @ ''Close() error'' @ [CHR 0x0A]
            @ [CHR 0x09] @ ''Read(q []byte) (int, error)'' @ [CHR 0x0A]
            @ ''}'' @ [CHR 0x0A])"
proof -
  have l: "conf_Load ex_lib False
             [pkg \<lparr>pkg = ''ex'', typ = ''C''\<rparr>, pkg \<lparr>pkg = ''ex'', typ = ''I''\<rparr>,
              pkg \<lparr>pkg = ''ex'', typ = ''A''\<rparr>] = Inr ex_prog"
    by (simp add: ex_lib_def)
  show ?thesis
    unfolding main_def
    by (simp only: ex_parse_CIA l ex_lookup_CIA Let_def ex_render_CIA ex_pretty_CIA ex_header_CIA
          sum.case list.simps if_False append_assoc)
qed

theorem header_lists_types_in_order_witness:
  "main ex_lib False True False [''ex.C'', ''ex.I'', ''ex.A'']
     = Inr (''// Common interface of'' @ [CHR 0x0A] @ ''// ex.C'' @ [CHR 0x0A]
            @ ''// ex.I'' @ [CHR 0x0A] @ ''// *ex.A'' @ [CHR 0x0A]
            @ ''interface {'' @ [CHR 0x0A]
            @ [CHR 0x09] @ ''Close() error'' @ [CHR 0x0A]
            @ [CHR 0x09] @ ''Read(q []byte) (int, error)'' @ [CHR 0x0A]
            @ ''}'' @ [CHR 0x0A])
   \<and> (\<exists>argTypes prog typs src.
           parse_args [''ex.C'', ''ex.I'', ''ex.A''] = Inr argTypes
           \<and> conf_Load ex_lib False (map pkg argTypes) = Inr prog
           \<and> lookup_types prog argTypes = Inr typs
           \<and> length typs = length [''ex.C'', ''ex.I'', ''ex.A'']
           \<and> list_all2 (\<lambda>arg t. \<exists>a scope ob. parse_arg arg = Inr a
                  \<and> Imported prog (pkg a) = Some scope
                  \<and> scope (typ a) = Some ob \<and> obj_Type ob = t) [''ex.C'', ''ex.I'', ''ex.A''] typs
           \<and> render_buf ex_lib prog False (snd (common_loop ex_lib False [] None typs)) = Inr src
           \<and> ''// Common interface of'' @ [CHR 0x0A] @ ''// ex.C'' @ [CHR 0x0A]
            @ ''// ex.I'' @ [CHR 0x0A] @ ''// *ex.A'' @ [CHR 0x0A]
            @ ''interface {'' @ [CHR 0x0A]
            @ [CHR 0x09] @ ''Close() error'' @ [CHR 0x0A]
            @ [CHR 0x09] @ ''Read(q []byte) (int, error)'' @ [CHR 0x0A]
            @ ''}'' @ [CHR 0x0A]
             = (if True then
                       ''// Common interface of'' @ [CHR 0x0A]
                         @ concat (map (\<lambda>t. ''// '' @ Type_String ex_lib
                              (if IsInterface ex_lib t then t
                               else if Implements ex_lib t
                                    (iface_funcs (snd (common_loop ex_lib False [] None typs)))
                               then t else Pointer t) @ [CHR 0x0A]) typs)
                     else [])
                    @ pretty ex_lib src)"
  using ex_main_CIA header_lists_types_in_order [OF ex_main_CIA] by (intro conjI)

subsection \<open>The two versions\<close>




















lemma ex_main_AB_comments:
  "main ex_lib True False False [''ex.A'', ''ex.B'']
     = Inr (''interface {'' @ [CHR 0x0A]
            @ [CHR 0x09] @ ''// Close closes A.'' @ [CHR 0x0A]
            @ [CHR 0x09] @ ''Close() error'' @ [CHR 0x0A]
            @ [CHR 0x09] @ ''Read(b []byte) (n int, err error)'' @ [CHR 0x0A]
            @ ''}'' @ [CHR 0x0A])"
proof -
  have l: "conf_Load ex_lib True [pkg \<lparr>pkg = ''ex'', typ = ''A''\<rparr>, pkg \<lparr>pkg = ''ex'', typ = ''B''\<rparr>]
             = Inr ex_prog"
    by (simp add: ex_lib_def)
  have r: "render_buf ex_lib ex_prog True
       (snd (common_loop ex_lib False [] None [Named ''ex'' ''A'', Named ''ex'' ''B'']))
     = Inr (''package common;type T interface{'' @ [CHR 0x0A]
            @ ''// Close closes A.'' @ [CHR 0x0A]
            @ [CHR 0x09] @ ''Close() error'' @ [CHR 0x0A]
            @ [CHR 0x09] @ ''Read(b []byte) (n int, err error)'' @ [CHR 0x0A]
            @ ''}'' @ [CHR 0x0A])"
    unfolding render_buf_def sorted_names_def
    by (simp only: ex_common_AB entries_def option.case)
       (simp add: doc_comment_def method_line_def TrimPrefix_def ex_lib_def ex_prog_def
          ex_path_def Let_def)
  have f: "pretty ex_lib (''package common;type T interface{'' @ [CHR 0x0A]
            @ ''// Close closes A.'' @ [CHR 0x0A]
            @ [CHR 0x09] @ ''Close() error'' @ [CHR 0x0A]
            @ [CHR 0x09] @ ''Read(b []byte) (n int, err error)'' @ [CHR 0x0A]
            @ ''}'' @ [CHR 0x0A])
     = ''interface {'' @ [CHR 0x0A]
            @ [CHR 0x09] @ ''// Close closes A.'' @ [CHR 0x0A]
            @ [CHR 0x09] @ ''Close() error'' @ [CHR 0x0A]
            @ [CHR 0x09] @ ''Read(b []byte) (n int, err error)'' @ [CHR 0x0A]
            @ ''}'' @ [CHR 0x0A]"
    by (simp add: pretty_def ex_lib_def ex_format_def Let_def)
  show ?thesis
    unfolding main_def
    by (simp only: ex_parse_AB l ex_lookup_AB Let_def r f header_text_def
          sum.case list.simps if_False append_Nil)
qed











end
